theory Spec2Isabelle
  imports Main "HOL-Library.AList" "HOL-Library.Multiset"
begin

section \<open>Strings and numbers\<close>

text \<open>
  JavaScript strings are modelled by \<^typ>\<open>string\<close>, one \<^typ>\<open>char\<close> per code unit
  (the first 256 code points). Day numbers and item indices are integers; their decimal
  rendering is \<open>Number.prototype.toString\<close> (exact below \<open>10^21\<close>), their parsing from a
  run of digits is \<open>parseInt(_, 10)\<close> (exact below \<open>2^53\<close>).
\<close>

definition digit_char :: "nat \<Rightarrow> char" where
  "digit_char d = ''0123456789'' ! (d mod 10)"

definition is_digit :: "char \<Rightarrow> bool" where
  "is_digit c = (c \<in> set ''0123456789'')"

fun nat_toString :: "nat \<Rightarrow> string" where
  "nat_toString n =
     (if n < 10 then [digit_char n] else nat_toString (n div 10) @ [digit_char (n mod 10)])"

declare nat_toString.simps [simp del]

definition toString :: "int \<Rightarrow> string" where
  "toString i = (if i < 0 then CHR ''-'' # nat_toString (nat (- i)) else nat_toString (nat i))"

definition digit_val :: "char \<Rightarrow> nat" where
  "digit_val c = of_char c - 48"

definition parseInt :: "string \<Rightarrow> nat" where
  \<comment> \<open>\<open>parseInt(ds, 10)\<close> on a non-empty run of decimal digits, as the regular
      expression of \<open>updateDiary\<close> delivers it\<close>
  "parseInt ds = foldl (\<lambda>a c. 10 * a + digit_val c) 0 ds"

definition startsWith :: "string \<Rightarrow> string \<Rightarrow> bool" where
  "startsWith s p = (take (length p) s = p)"

definition is_white_space :: "char \<Rightarrow> bool" where
  \<comment> \<open>TAB, LF, VT, FF, CR, SPACE and NBSP: the white space and line terminators of
      \<open>String.prototype.trim\<close> among the first 256 code points\<close>
  "is_white_space c = (of_char c \<in> {9, 10, 11, 12, 13, 32, 160 :: nat})"

definition trim :: "string \<Rightarrow> string" where
  "trim s = rev (dropWhile is_white_space (rev (dropWhile is_white_space s)))"

definition itemKey :: "int \<Rightarrow> nat \<Rightarrow> string" where
  \<comment> \<open>the template \<open>day-${dayId}-item-${index}\<close>\<close>
  "itemKey dayId index = ''day-'' @ toString dayId @ ''-item-'' @ nat_toString index"

definition match_item_key :: "string \<Rightarrow> (string \<times> string) option" where
  \<comment> \<open>\<open>key.match(/^day-(\d+)-item-(\d+)$/)\<close>: the two captured groups\<close>
  "match_item_key key =
     (if startsWith key ''day-'' then
        (let r = drop 4 key; d = takeWhile is_digit r; r' = dropWhile is_digit r in
         if d \<noteq> [] \<and> startsWith r' ''-item-'' then
           (let i = drop 6 r' in
            if i \<noteq> [] \<and> list_all is_digit i then Some (d, i) else None)
         else None)
      else None)"


section \<open>The item state store\<close>

text \<open>
  The browser's \<open>localStorage\<close> holds strings. The program reads the item keys through
  \<open>JSON.parse\<close> only and writes them through \<open>JSON.stringify\<close> only, so a stored string
  is represented by what \<open>JSON.parse\<close> makes of it: a syntax error (\<open>Malformed\<close>) or a
  JSON value (\<open>Json\<close>). The program itself writes objects \<open>{completed, note?}\<close>, but the
  store may hold any JSON value under an item's key, and an object may hold any
  properties. A number is represented by an integer: the program only tests whether it
  is zero. The properties of an object are listed with their values, each property
  once; their order plays no role. The list order of the storage is the order of
  \<open>localStorage.key(i)\<close>.
\<close>

datatype json = JsonNull | JsonBool bool | JsonNumber int | JsonString string
  | JsonArray "json list" | JsonObject "(string \<times> json) list"

datatype stored = Malformed | Json json

type_synonym storage = "(string \<times> stored) list"

datatype error = SyntaxError | TypeError

definition getItem :: "storage \<Rightarrow> string \<Rightarrow> stored option" where
  \<comment> \<open>\<open>None\<close> is the \<open>null\<close> that \<open>getItem\<close> returns for a key that is not stored\<close>
  "getItem st key = map_of st key"

definition setItem :: "storage \<Rightarrow> string \<Rightarrow> stored \<Rightarrow> storage" where
  "setItem st key v = AList.update key v st"

fun JSON_parse :: "stored option \<Rightarrow> error + json" where
  \<comment> \<open>\<open>JSON.parse(null)\<close> parses the text \<open>null\<close>\<close>
  "JSON_parse None = Inr JsonNull"
| "JSON_parse (Some Malformed) = Inl SyntaxError"
| "JSON_parse (Some (Json j)) = Inr j"

fun truthy :: "json \<Rightarrow> bool" where
  \<comment> \<open>\<open>null\<close>, \<open>false\<close>, \<open>0\<close> and the empty string are falsy\<close>
  "truthy JsonNull = False"
| "truthy (JsonBool b) = b"
| "truthy (JsonNumber n) = (n \<noteq> 0)"
| "truthy (JsonString s) = (s \<noteq> [])"
| "truthy (JsonArray xs) = True"
| "truthy (JsonObject ps) = True"

definition truthy_property :: "json option \<Rightarrow> bool" where
  \<comment> \<open>the truth value of a property that was read; \<open>None\<close> is \<open>undefined\<close>\<close>
  "truthy_property x = (case x of None \<Rightarrow> False | Some j \<Rightarrow> truthy j)"

fun property :: "json \<Rightarrow> string \<Rightarrow> json option" where
  \<comment> \<open>\<open>data.completed\<close> and \<open>data.note\<close> on a parsed value other than \<open>null\<close>: a boolean,
      a number, a string and an array have no property of these names\<close>
  "property (JsonObject ps) k = map_of ps k"
| "property (JsonArray xs) k = None"
| "property (JsonString s) k = None"
| "property (JsonNumber n) k = None"
| "property (JsonBool b) k = None"
| "property JsonNull k = None"

text \<open>
  The value that the two click handlers of an item capture in \<open>saved\<close>, which is what
  \<open>JSON.parse(...) || {}\<close> evaluates to: a boolean, a number or a string (a primitive: it
  has no property \<open>completed\<close> or \<open>note\<close>, and a write to a property of it is dropped, the
  scripts not being in strict mode), an array, or a plain object. An array keeps the
  properties that a handler writes to it, next to its elements, but \<open>JSON.stringify\<close>
  writes its elements only.
\<close>

datatype js_value = BoolValue bool | NumberValue int | StringValue string
  | ArrayObject "json list" "(string \<times> json) list" | PlainObject "(string \<times> json) list"

fun or_empty :: "json \<Rightarrow> js_value" where
  \<comment> \<open>\<open>j || {}\<close>\<close>
  "or_empty JsonNull = PlainObject []"
| "or_empty (JsonBool b) = (if b then BoolValue b else PlainObject [])"
| "or_empty (JsonNumber n) = (if n \<noteq> 0 then NumberValue n else PlainObject [])"
| "or_empty (JsonString s) = (if s \<noteq> [] then StringValue s else PlainObject [])"
| "or_empty (JsonArray xs) = ArrayObject xs []"
| "or_empty (JsonObject ps) = PlainObject ps"

fun get_property :: "js_value \<Rightarrow> string \<Rightarrow> json option" where
  \<comment> \<open>\<open>saved.completed\<close> and \<open>saved.note\<close>\<close>
  "get_property (PlainObject ps) k = map_of ps k"
| "get_property (ArrayObject xs ps) k = map_of ps k"
| "get_property (StringValue s) k = None"
| "get_property (NumberValue n) k = None"
| "get_property (BoolValue b) k = None"

fun set_property :: "js_value \<Rightarrow> string \<Rightarrow> json \<Rightarrow> js_value" where
  \<comment> \<open>\<open>saved.completed = x\<close> and \<open>saved.note = x\<close>\<close>
  "set_property (PlainObject ps) k x = PlainObject (AList.update k x ps)"
| "set_property (ArrayObject xs ps) k x = ArrayObject xs (AList.update k x ps)"
| "set_property (StringValue s) k x = StringValue s"
| "set_property (NumberValue n) k x = NumberValue n"
| "set_property (BoolValue b) k x = BoolValue b"

fun delete_property :: "js_value \<Rightarrow> string \<Rightarrow> js_value" where
  \<comment> \<open>\<open>delete saved.note\<close>\<close>
  "delete_property (PlainObject ps) k = PlainObject (AList.delete k ps)"
| "delete_property (ArrayObject xs ps) k = ArrayObject xs (AList.delete k ps)"
| "delete_property (StringValue s) k = StringValue s"
| "delete_property (NumberValue n) k = NumberValue n"
| "delete_property (BoolValue b) k = BoolValue b"

fun JSON_stringify :: "js_value \<Rightarrow> stored" where
  "JSON_stringify (PlainObject ps) = Json (JsonObject ps)"
| "JSON_stringify (ArrayObject xs ps) = Json (JsonArray xs)"
| "JSON_stringify (StringValue s) = Json (JsonString s)"
| "JSON_stringify (NumberValue n) = Json (JsonNumber n)"
| "JSON_stringify (BoolValue b) = Json (JsonBool b)"

definition load_saved :: "storage \<Rightarrow> string \<Rightarrow> js_value" where
  \<comment> \<open>\<open>try { saved = JSON.parse(localStorage.getItem(itemKey)) || {}; }
      catch (e) { saved = {}; }\<close>\<close>
  "load_saved st key =
     (case JSON_parse (getItem st key) of
        Inl e \<Rightarrow> PlainObject []
      | Inr j \<Rightarrow> or_empty j)"

text \<open>
  What the page keeps for one schedule item: the \<open>completed\<close> class of its \<open>li\<close>, the
  value \<open>saved\<close> captured by its two click handlers, and the note box, hidden and empty
  or showing the label followed by the text of the value that the template interpolates
  (\<open>None\<close> when that is \<open>undefined\<close>).
\<close>

datatype note_box = NoteHidden | NoteShown "json option"

record item_ui =
  li_completed :: bool
  saved :: js_value
  note_display :: note_box

definition init_item :: "storage \<Rightarrow> string \<Rightarrow> item_ui" where
  "init_item st key =
     (let s = load_saved st key in
      \<lparr>li_completed = truthy_property (get_property s ''completed''),
       saved = s,
       note_display = (if truthy_property (get_property s ''note'')
                       then NoteShown (get_property s ''note'') else NoteHidden)\<rparr>)"

definition done_handler :: "string \<Rightarrow> item_ui \<Rightarrow> storage \<Rightarrow> item_ui \<times> storage" where
  \<comment> \<open>the click handler of the done button, up to the write:
      \<open>li.classList.toggle('completed'); saved.completed = li.classList.contains('completed');
      localStorage.setItem(itemKey, JSON.stringify(saved));\<close>\<close>
  "done_handler key ui st =
     (let c = \<not> li_completed ui;
          s = set_property (saved ui) ''completed'' (JsonBool c)
      in (ui\<lparr>li_completed := c, saved := s\<rparr>, setItem st key (JSON_stringify s)))"

definition note_handler ::
    "string \<Rightarrow> string option \<Rightarrow> item_ui \<Rightarrow> storage \<Rightarrow> item_ui \<times> storage" where
  \<comment> \<open>the click handler of the note button, up to the write; the second argument is
      what \<open>prompt\<close> returned (\<open>None\<close> when the dialog was cancelled)\<close>
  "note_handler key input ui st =
     (case input of
        None \<Rightarrow> (ui, st)
      | Some n \<Rightarrow>
          (let trimmed = trim n;
               s = (if trimmed = [] then delete_property (saved ui) ''note''
                    else set_property (saved ui) ''note'' (JsonString trimmed));
               d = (if trimmed = [] then NoteHidden else NoteShown (get_property s ''note''))
           in (ui\<lparr>saved := s, note_display := d\<rparr>, setItem st key (JSON_stringify s))))"


section \<open>The itinerary and the page\<close>

text \<open>
  The itinerary is what \<open>parseItinerary\<close> extracted from the cards: for each day its id,
  title, subtitle, highlight and schedule, with one activity for each \<open>li\<close> child of the
  card's list. Titles, highlights, descriptions and transport details are HTML texts,
  which \<open>createPanel\<close> hands back to the browser. Of the elements that the browser
  builds from them the model keeps the number of those that \<open>initScheduleItemsForDay\<close>
  finds: \<open>nested_items\<close> is the number of \<open>li\<close> elements built from the \<open>html\<close> and the
  \<open>transport\<close> of an activity, which lie inside the \<open>li\<close> of the activity;
  \<open>header_items\<close> is the number of elements that the selector \<open>.schedule li\<close> matches
  among those built from the title, the subtitle and the highlight of a day, which
  precede the list.
\<close>

record activity =
  time :: string
  html :: string
  transport :: "string option"
  nested_items :: nat

record day =
  day_id :: int
  title :: string
  subtitle :: string
  highlight :: "string option"
  header_items :: nat
  schedule :: "activity list"

definition panel_items :: "day \<Rightarrow> nat" where
  \<comment> \<open>the length of \<open>panel.querySelectorAll('.schedule li')\<close> in the panel that
      \<open>createPanel\<close> has built for the day\<close>
  "panel_items d = header_items d + sum_list (map (\<lambda>a. 1 + nested_items a) (schedule d))"

text \<open>
  The text of a tab: \<open>Dia N\<close>, \<open>Dia N\<close> with the check mark, \<open>Dia N (c/t)\<close>, and the
  label of the diary tab.
\<close>

datatype tab_text = Dia int | DiaCheck int | DiaCount int nat nat | Diario

record tab =
  tab_id :: string
  aria_selected :: bool
  tabindex :: int
  tab_active :: bool
  textContent :: tab_text

text \<open>
  A panel is the panel of a day, with one \<open>item_ui\<close> for each element that
  \<open>initScheduleItemsForDay\<close> finds in it, in document order (the \<open>li\<close> of an activity
  comes before the \<open>li\<close> elements nested in it), or the diary panel, with or without the
  message that no note is registered.
\<close>

datatype panel_content = DayPanel int "item_ui list" | DiaryPanel bool

record panel =
  panel_id :: string
  panel_active :: bool
  panel_hidden :: bool
  content :: panel_content

record diary_entry =
  entry_day :: nat
  entry_note :: json

record diary_section =
  section_hidden :: bool
  section_card :: bool
  diary_list :: "diary_entry list option"

record globals =
  itineraryData :: "day list"
  tabPanels :: "(string \<times> panel) list"

text \<open>
  The state of the page. \<open>items\<close> is \<open>localStorage\<close> without the key \<open>lastDay\<close>, which
  holds plain text and is kept apart (the key \<open>theme\<close> is not modelled). \<open>searchParams\<close>
  is the query of the page's URL. \<open>tabList\<close> is the list of tabs inside \<open>#tab-list\<close>,
  \<open>None\<close> when the document has no such element; \<open>panelsContainer\<close> tells whether
  \<open>#tab-panels\<close> exists. \<open>win\<close> is \<open>None\<close> until \<open>buildTabs\<close> has set \<open>window.itineraryData\<close>
  and \<open>window.tabPanels\<close>. \<open>diary\<close> is the element \<open>#diary\<close> with its list \<open>#diary-list\<close>,
  also the referent of \<open>window.diarySection\<close>; \<open>diary_attached\<close> tells whether it is in
  the document, where \<open>getElementById\<close> finds it. \<open>focus\<close> is the index of the focused
  tab. The rest of the document is not modelled; no element of it, and none built from
  the HTML texts of the itinerary, has the id of a tab, of the diary section or of its
  list.
\<close>

record page =
  items :: storage
  lastDay :: "string option"
  searchParams :: "(string \<times> string) list"
  tabList :: "tab list option"
  panelsContainer :: bool
  win :: "globals option"
  diary :: "diary_section option"
  diary_attached :: bool
  focus :: "nat option"


section \<open>Progress of a day\<close>

definition is_completed :: "storage \<Rightarrow> string \<Rightarrow> bool" where
  \<comment> \<open>\<open>try { const data = JSON.parse(localStorage.getItem(key));
      if (data && data.completed) completed += 1; } catch (e) {}\<close>\<close>
  "is_completed st key =
     (case JSON_parse (getItem st key) of
        Inl e \<Rightarrow> False
      | Inr data \<Rightarrow> truthy data \<and> truthy_property (property data ''completed''))"

function count_completed :: "storage \<Rightarrow> int \<Rightarrow> nat \<Rightarrow> nat \<Rightarrow> nat \<Rightarrow> nat" where
  \<comment> \<open>the loop \<open>for (let i = 0; i < total; i++)\<close> of \<open>updateDayProgress\<close>, from \<open>i\<close>
      with \<open>completed\<close> so far\<close>
  "count_completed st dayId total' i completed' =
     (if i < total'
      then count_completed st dayId total' (i + 1)
             (if is_completed st (itemKey dayId i) then completed' + 1 else completed')
      else completed')"
  by pat_completeness auto
termination
  by (relation "measure (\<lambda>(st, dayId, total', i, completed'). total' - i)") auto

declare count_completed.simps [simp del]

definition progress_text :: "int \<Rightarrow> nat \<Rightarrow> nat \<Rightarrow> tab_text" where
  "progress_text dayId completed' total' =
     (if total' > 0
      then (if completed' = total' then DiaCheck dayId else DiaCount dayId completed' total')
      else Dia dayId)"

fun update_first :: "('a \<Rightarrow> bool) \<Rightarrow> ('a \<Rightarrow> 'a) \<Rightarrow> 'a list \<Rightarrow> 'a list" where
  "update_first P f [] = []"
| "update_first P f (x # xs) = (if P x then f x # xs else x # update_first P f xs)"

definition find_day :: "day list \<Rightarrow> string \<Rightarrow> day option" where
  \<comment> \<open>\<open>window.itineraryData.find((d) => d.id.toString() === id.toString())\<close>\<close>
  "find_day ds i = find (\<lambda>d. toString (day_id d) = i) ds"

definition updateDayProgress :: "int \<Rightarrow> page \<Rightarrow> error + page" where
  "updateDayProgress dayId s =
     (case win s of
        None \<Rightarrow> Inl TypeError
      | Some w \<Rightarrow>
         (case find_day (itineraryData w) (toString dayId) of
            None \<Rightarrow> Inr s
          | Some d \<Rightarrow>
             (let total' = length (schedule d);
                  completed' = count_completed (items s) dayId total' 0 0
              in (case tabList s of
                    None \<Rightarrow> Inr s
                  | Some tabs \<Rightarrow>
                      Inr (s\<lparr>tabList := Some (update_first
                             (\<lambda>t. tab_id t = ''tab-'' @ toString dayId)
                             (\<lambda>t. t\<lparr>textContent := progress_text dayId completed' total'\<rparr>)
                             tabs)\<rparr>)))))"


section \<open>The diary\<close>

fun diary_scan :: "storage \<Rightarrow> string list \<Rightarrow> diary_entry list" where
  \<comment> \<open>the loop of \<open>updateDiary\<close> over the stored keys, in the order of \<open>localStorage.key\<close>\<close>
  "diary_scan st [] = []"
| "diary_scan st (key # keys) =
     (if key = [] \<or> \<not> startsWith key ''day-'' then diary_scan st keys
      else (case JSON_parse (getItem st key) of
              Inl e \<Rightarrow> diary_scan st keys
            | Inr data \<Rightarrow>
                (if truthy data \<and> truthy_property (property data ''note'')
                 then (case match_item_key key of
                         None \<Rightarrow> diary_scan st keys
                       | Some (d, i) \<Rightarrow>
                           \<lparr>entry_day = parseInt d,
                            entry_note = the (property data ''note'')\<rparr>
                             # diary_scan st keys)
                 else diary_scan st keys)))"

definition diary_entries :: "storage \<Rightarrow> diary_entry list" where
  \<comment> \<open>the scan followed by \<open>entries.sort((a, b) => a.day - b.day)\<close>, a stable sort\<close>
  "diary_entries st = sort_key entry_day (diary_scan st (map fst st))"

definition updateDiary :: "page \<Rightarrow> page" where
  \<comment> \<open>\<open>getElementById\<close> finds the section and its list only while they are in the
      document; the panel stored under \<open>diary\<close> is the diary panel, the only one
      \<open>createPanel\<close> stores under that key\<close>
  "updateDiary s =
     (case (if diary_attached s then diary s else None) of
        None \<Rightarrow> s
      | Some sec \<Rightarrow>
         (case diary_list sec of
            None \<Rightarrow> s
          | Some old \<Rightarrow>
             (let entries = diary_entries (items s);
                  sec' = sec\<lparr>diary_list := Some entries, section_hidden := (entries = [])\<rparr>;
                  s' = s\<lparr>diary := Some sec'\<rparr>
              in (case win s' of
                    None \<Rightarrow> s'
                  | Some w \<Rightarrow>
                     (case map_of (tabPanels w) ''diary'' of
                        None \<Rightarrow> s'
                      | Some diaryPanel \<Rightarrow>
                          s'\<lparr>win := Some (w\<lparr>tabPanels := AList.update ''diary''
                                 (diaryPanel\<lparr>content := DiaryPanel (entries = [])\<rparr>)
                                 (tabPanels w)\<rparr>)\<rparr>)))))"



section \<open>Tabs and panels\<close>

definition bind :: "error + 'a \<Rightarrow> ('a \<Rightarrow> error + 'b) \<Rightarrow> error + 'b" where
  \<comment> \<open>sequencing: an exception of the first statement ends the call\<close>
  "bind m f = (case m of Inl e \<Rightarrow> Inl e | Inr x \<Rightarrow> f x)"

definition new_tab :: "string \<Rightarrow> tab_text \<Rightarrow> tab" where
  "new_tab i txt =
     \<lparr>tab_id = ''tab-'' @ i, aria_selected = False, tabindex = - 1, tab_active = False,
      textContent = txt\<rparr>"

definition append_tab :: "tab \<Rightarrow> page \<Rightarrow> page" where
  \<comment> \<open>\<open>tabList.appendChild(btn)\<close>\<close>
  "append_tab btn s = s\<lparr>tabList := map_option (\<lambda>tabs. tabs @ [btn]) (tabList s)\<rparr>"

fun build_day_tabs :: "day list \<Rightarrow> page \<Rightarrow> error + page" where
  \<comment> \<open>\<open>itineraryData.forEach((day) => { ...; tabList.appendChild(btn);
      updateDayProgress(day.id); })\<close>\<close>
  "build_day_tabs [] s = Inr s"
| "build_day_tabs (d # ds) s =
     bind (updateDayProgress (day_id d)
             (append_tab (new_tab (toString (day_id d)) (Dia (day_id d))) s))
          (build_day_tabs ds)"

definition buildTabs :: "day list \<Rightarrow> page \<Rightarrow> error + page" where
  \<comment> \<open>the second argument of the source, the diary section, is the element \<open>diary s\<close>\<close>
  "buildTabs data s =
     (if tabList s = None \<or> \<not> panelsContainer s then Inr s
      else bind (build_day_tabs data
                  (s\<lparr>tabList := Some [],
                     win := Some \<lparr>itineraryData = data, tabPanels = []\<rparr>\<rparr>))
             (\<lambda>s'. Inr (if diary s' \<noteq> None then append_tab (new_tab ''diary'' Diario) s'
                        else s')))"

definition getIdFromTab :: "tab \<Rightarrow> string" where
  \<comment> \<open>\<open>if (!tab || !tab.id) return ''; return tab.id.replace(/^tab-/, '');\<close>\<close>
  "getIdFromTab t =
     (if tab_id t = [] then []
      else if startsWith (tab_id t) ''tab-'' then drop 4 (tab_id t) else tab_id t)"

definition select_tab :: "string \<Rightarrow> tab \<Rightarrow> tab" where
  "select_tab i t =
     (let selected = (getIdFromTab t = i)
      in t\<lparr>aria_selected := selected, tabindex := (if selected then 0 else - 1),
           tab_active := selected\<rparr>)"

definition show_panel :: "string \<Rightarrow> string \<times> panel \<Rightarrow> string \<times> panel" where
  "show_panel i kp =
     (if fst kp = i then (fst kp, (snd kp)\<lparr>panel_active := True, panel_hidden := False\<rparr>)
      else (fst kp, (snd kp)\<lparr>panel_active := False, panel_hidden := True\<rparr>))"

definition set_panel :: "string \<Rightarrow> panel \<Rightarrow> page \<Rightarrow> error + page" where
  \<comment> \<open>\<open>window.tabPanels[id] = panel\<close>\<close>
  "set_panel i p s =
     (case win s of
        None \<Rightarrow> Inl TypeError
      | Some w \<Rightarrow> Inr (s\<lparr>win := Some (w\<lparr>tabPanels := AList.update i p (tabPanels w)\<rparr>)\<rparr>))"

definition initScheduleItemsForDay :: "nat \<Rightarrow> int \<Rightarrow> page \<Rightarrow> error + (item_ui list \<times> page)" where
  \<comment> \<open>the first argument is the number of elements that \<open>.schedule li\<close> selects in the
      panel; the result holds the state of their controls\<close>
  "initScheduleItemsForDay n dayId s =
     (let uis = map (\<lambda>index. init_item (items s) (itemKey dayId index)) [0..<n]
      in bind (updateDayProgress dayId s) (\<lambda>s'. Inr (uis, s')))"

definition createPanel :: "string \<Rightarrow> page \<Rightarrow> error + page" where
  "createPanel i s =
     (if \<not> panelsContainer s then Inr s
      else if i = ''diary'' then
        (let msg = (case diary s of None \<Rightarrow> True | Some sec \<Rightarrow> section_hidden sec);
             diaryPanel = \<lparr>panel_id = ''panel-diary'', panel_active = False,
                           panel_hidden = False, content = DiaryPanel msg\<rparr>
         in set_panel i diaryPanel
              (s\<lparr>diary := map_option (\<lambda>sec. sec\<lparr>section_card := False\<rparr>) (diary s),
                 diary_attached := (diary s \<noteq> None \<or> diary_attached s)\<rparr>))
      else
        (case win s of
           None \<Rightarrow> Inl TypeError
         | Some w \<Rightarrow>
            (case find_day (itineraryData w) i of
               None \<Rightarrow> Inr s
             | Some d \<Rightarrow>
                bind (initScheduleItemsForDay (panel_items d) (day_id d) s)
                  (\<lambda>(uis, s').
                     set_panel i
                       \<lparr>panel_id = ''panel-'' @ toString (day_id d), panel_active = False,
                        panel_hidden = False, content = DayPanel (day_id d) uis\<rparr> s'))))"

text \<open>The query of the URL, as \<open>URLSearchParams\<close> reads and writes it.\<close>

definition sp_has :: "(string \<times> string) list \<Rightarrow> string \<Rightarrow> bool" where
  "sp_has ps k = (map_of ps k \<noteq> None)"

definition sp_get :: "(string \<times> string) list \<Rightarrow> string \<Rightarrow> string option" where
  "sp_get ps k = map_of ps k"

definition sp_delete :: "(string \<times> string) list \<Rightarrow> string \<Rightarrow> (string \<times> string) list" where
  "sp_delete ps k = filter (\<lambda>kv. fst kv \<noteq> k) ps"

fun sp_set :: "(string \<times> string) list \<Rightarrow> string \<Rightarrow> string \<Rightarrow> (string \<times> string) list" where
  "sp_set [] k v = [(k, v)]"
| "sp_set (kv # ps) k v =
     (if fst kv = k then (k, v) # sp_delete ps k else kv # sp_set ps k v)"

definition ensure_panel :: "string \<Rightarrow> page \<Rightarrow> error + page" where
  \<comment> \<open>\<open>if (!window.tabPanels[id]) { createPanel(id); }\<close>\<close>
  "ensure_panel i s =
     (case win s of
        None \<Rightarrow> Inl TypeError
      | Some w \<Rightarrow> (if map_of (tabPanels w) i = None then createPanel i s else Inr s))"

definition show_panels :: "string \<Rightarrow> page \<Rightarrow> error + page" where
  \<comment> \<open>\<open>Object.keys(window.tabPanels).forEach((key) => { ... })\<close>\<close>
  "show_panels i s =
     (case win s of
        None \<Rightarrow> Inl TypeError
      | Some w \<Rightarrow> Inr (s\<lparr>win := Some (w\<lparr>tabPanels := map (show_panel i) (tabPanels w)\<rparr>)\<rparr>))"

definition persist_lastDay :: "string \<Rightarrow> page \<Rightarrow> page" where
  \<comment> \<open>\<open>if (id !== 'diary') { localStorage.setItem('lastDay', id); }\<close>\<close>
  "persist_lastDay i s = (if i \<noteq> ''diary'' then s\<lparr>lastDay := Some i\<rparr> else s)"

definition replace_url :: "string \<Rightarrow> page \<Rightarrow> page" where
  \<comment> \<open>the query of the URL handed to \<open>history.replaceState\<close>\<close>
  "replace_url i s =
     s\<lparr>searchParams := (if i = ''diary'' then sp_delete (searchParams s) ''dia''
                        else sp_set (searchParams s) ''dia'' i)\<rparr>"

definition openTab :: "string \<Rightarrow> page \<Rightarrow> error + page" where
  "openTab i s =
     (case tabList s of
        None \<Rightarrow> Inl TypeError
      | Some tabs \<Rightarrow>
          bind (ensure_panel i (s\<lparr>tabList := Some (map (select_tab i) tabs)\<rparr>))
            (\<lambda>s2. bind (show_panels i s2)
               (\<lambda>s3. Inr (replace_url i (persist_lastDay i s3)))))"

definition restoreLastDay :: "day list \<Rightarrow> page \<Rightarrow> error + page" where
  "restoreLastDay data s =
     (let i = (if sp_has (searchParams s) ''dia'' then sp_get (searchParams s) ''dia''
               else lastDay s)
      in openTab
           (case i of
              Some v \<Rightarrow>
                (if v \<noteq> [] then v
                 else if data \<noteq> [] then toString (day_id (hd data)) else ''diary'')
            | None \<Rightarrow> (if data \<noteq> [] then toString (day_id (hd data)) else ''diary''))
           s)"


section \<open>The controls of an item\<close>

text \<open>
  A click on the done button, or on the note button, of item \<open>index\<close> in the panel stored
  under \<open>p\<close>. Where the page has no such button there is no event, and nothing changes.
\<close>

definition done_click :: "string \<Rightarrow> nat \<Rightarrow> page \<Rightarrow> error + page" where
  "done_click p index s =
     (case win s of
        None \<Rightarrow> Inr s
      | Some w \<Rightarrow>
         (case map_of (tabPanels w) p of
            None \<Rightarrow> Inr s
          | Some pan \<Rightarrow>
             (case content pan of
                DiaryPanel m \<Rightarrow> Inr s
              | DayPanel dayId uis \<Rightarrow>
                 (if index < length uis then
                    (let r = done_handler (itemKey dayId index) (uis ! index) (items s);
                         pan' = pan\<lparr>content := DayPanel dayId (uis[index := fst r])\<rparr>
                     in updateDayProgress dayId
                          (s\<lparr>items := snd r,
                             win := Some (w\<lparr>tabPanels := AList.update p pan' (tabPanels w)\<rparr>)\<rparr>))
                  else Inr s))))"

definition note_click :: "string \<Rightarrow> nat \<Rightarrow> string option \<Rightarrow> page \<Rightarrow> error + page" where
  "note_click p index input s =
     (case win s of
        None \<Rightarrow> Inr s
      | Some w \<Rightarrow>
         (case map_of (tabPanels w) p of
            None \<Rightarrow> Inr s
          | Some pan \<Rightarrow>
             (case content pan of
                DiaryPanel m \<Rightarrow> Inr s
              | DayPanel dayId uis \<Rightarrow>
                 (if index < length uis \<and> input \<noteq> None then
                    (let r = note_handler (itemKey dayId index) input (uis ! index) (items s);
                         pan' = pan\<lparr>content := DayPanel dayId (uis[index := fst r])\<rparr>
                     in Inr (updateDiary
                          (s\<lparr>items := snd r,
                             win := Some (w\<lparr>tabPanels := AList.update p pan' (tabPanels w)\<rparr>)\<rparr>)))
                  else Inr s))))"


section \<open>Keyboard navigation\<close>

fun findIndex :: "('a \<Rightarrow> bool) \<Rightarrow> 'a list \<Rightarrow> int" where
  \<comment> \<open>\<open>Array.prototype.findIndex\<close>: \<open>-1\<close> when no element satisfies the predicate\<close>
  "findIndex P [] = - 1"
| "findIndex P (x # xs) =
     (if P x then 0 else (let r = findIndex P xs in if r < 0 then - 1 else r + 1))"

definition js_rem :: "int \<Rightarrow> int \<Rightarrow> int" where
  \<comment> \<open>the operator \<open>%\<close>: the result has the sign of the dividend\<close>
  "js_rem a b = (if a < 0 then - ((- a) mod \<bar>b\<bar>) else a mod \<bar>b\<bar>)"

definition focus_and_open :: "int \<Rightarrow> tab list \<Rightarrow> page \<Rightarrow> error + page" where
  \<comment> \<open>the statements of \<open>handleTabKeyNav\<close> after the \<open>switch\<close>\<close>
  "focus_and_open newIndex tabs s =
     (let j = (if newIndex < 0 then 0
               else if newIndex \<ge> int (length tabs) then int (length tabs) - 1
               else newIndex)
      in if 0 \<le> j \<and> nat j < length tabs
         then openTab (getIdFromTab (tabs ! nat j)) (s\<lparr>focus := Some (nat j)\<rparr>)
         else Inr s)"

definition handleTabKeyNav :: "string \<Rightarrow> page \<Rightarrow> error + page" where
  \<comment> \<open>the first argument is \<open>e.key\<close>; the target of the event is the focused tab\<close>
  "handleTabKeyNav k s =
     (case tabList s of
        None \<Rightarrow> Inr s
      | Some tabs \<Rightarrow>
         (if tabs = [] then Inr s
          else
            (let currentIndex = findIndex aria_selected tabs;
                 n = int (length tabs)
             in if k = ''ArrowRight'' \<or> k = ''Right''
                then focus_and_open (js_rem (currentIndex + 1) n) tabs s
                else if k = ''ArrowLeft'' \<or> k = ''Left''
                then focus_and_open (js_rem (currentIndex - 1 + n) n) tabs s
                else if k = ''Home'' then focus_and_open 0 tabs s
                else if k = ''End'' then focus_and_open (n - 1) tabs s
                else if k = ''Enter'' \<or> k = '' '' \<or> k = ''Spacebar''
                then (case focus s of
                        None \<Rightarrow> Inr s
                      | Some j \<Rightarrow>
                          (if j < length tabs then openTab (getIdFromTab (tabs ! j)) s
                           else Inr s))
                else Inr s)))"


section \<open>Loading the page\<close>

definition DOMContentLoaded :: "day list \<Rightarrow> page \<Rightarrow> error + page" where
  \<comment> \<open>the listener of the tabbed script; the first argument is what \<open>parseItinerary\<close>
      extracted. The diary section is taken out of the document first.\<close>
  "DOMContentLoaded data s =
     bind (buildTabs data (updateDiary (s\<lparr>diary_attached := False\<rparr>)))
          (restoreLastDay data)"


section \<open>Notions used in the statements\<close>

text \<open>
  \<open>keeps s s'\<close>: the store, the URL, the focus and the existence of the page's anchors
  are the same in \<open>s'\<close> as in \<open>s\<close>.
\<close>

definition keeps :: "page \<Rightarrow> page \<Rightarrow> bool" where
  "keeps s s' \<longleftrightarrow>
     items s' = items s \<and> lastDay s' = lastDay s \<and> searchParams s' = searchParams s \<and>
     panelsContainer s' = panelsContainer s \<and> focus s' = focus s \<and>
     (tabList s' = None \<longleftrightarrow> tabList s = None) \<and> (win s' = None \<longleftrightarrow> win s = None)"

text \<open>A sequence of activations, one call of \<open>openTab\<close> after the other.\<close>

fun activations :: "string list \<Rightarrow> page \<Rightarrow> error + page" where
  "activations [] s = Inr s"
| "activations (i # is) s = bind (openTab i s) (activations is)"

definition last_day_of :: "string list \<Rightarrow> string option \<Rightarrow> string option" where
  \<comment> \<open>the last of the activated ids that is not the diary's, if any\<close>
  "last_day_of is before =
     (case filter (\<lambda>i. i \<noteq> ''diary'') is of [] \<Rightarrow> before | ds \<Rightarrow> Some (last ds))"

text \<open>
  A small page for the examples: two days, the first with two activities and the second
  with one; a stored state for each of the three items, one of them not JSON.
\<close>

definition demo_activity :: activity where
  "demo_activity = \<lparr>time = ''09:00'', html = ''Cafe'', transport = None, nested_items = 0\<rparr>"

definition demo_itinerary :: "day list" where
  "demo_itinerary =
     [\<lparr>day_id = 1, title = ''Chegada'', subtitle = [], highlight = None, header_items = 0,
       schedule = [demo_activity, demo_activity]\<rparr>,
      \<lparr>day_id = 2, title = ''Centro'', subtitle = [], highlight = None, header_items = 0,
       schedule = [demo_activity]\<rparr>]"

definition demo_items :: storage where
  "demo_items =
     [(''day-2-item-0'',
       Json (JsonObject [(''completed'', JsonBool True), (''note'', JsonString ''tango'')])),
      (''day-1-item-1'', Malformed),
      (''day-1-item-0'',
       Json (JsonObject [(''completed'', JsonBool True), (''note'', JsonString ''cafe'')]))]"

definition demo_page :: page where
  \<comment> \<open>the document before the script runs\<close>
  "demo_page =
     \<lparr>items = demo_items, lastDay = None, searchParams = [], tabList = Some [],
      panelsContainer = True, win = None,
      diary = Some \<lparr>section_hidden = True, section_card = True, diary_list = Some []\<rparr>,
      diary_attached = True, focus = None\<rparr>"


definition demo_tabs :: "tab list" where
  "demo_tabs =
     [\<lparr>tab_id = ''tab-1'', aria_selected = True, tabindex = 0, tab_active = True,
       textContent = DiaCount 1 1 2\<rparr>,
      \<lparr>tab_id = ''tab-2'', aria_selected = False, tabindex = - 1, tab_active = False,
       textContent = DiaCheck 2\<rparr>,
      \<lparr>tab_id = ''tab-diary'', aria_selected = False, tabindex = - 1,
       tab_active = False, textContent = Diario\<rparr>]"

definition demo_globals :: globals where
  "demo_globals =
     \<lparr>itineraryData = demo_itinerary,
      tabPanels =
        [(''1'',
          \<lparr>panel_id = ''panel-1'', panel_active = True, panel_hidden = False,
           content = DayPanel 1
             [\<lparr>li_completed = True,
               saved = PlainObject [(''completed'', JsonBool True),
                                    (''note'', JsonString ''cafe'')],
               note_display = NoteShown (Some (JsonString ''cafe''))\<rparr>,
              \<lparr>li_completed = False, saved = PlainObject [],
               note_display = NoteHidden\<rparr>]\<rparr>)]\<rparr>"

definition demo_loaded :: page where
  \<comment> \<open>the page once the script has run on \<open>demo_page\<close>: the first day is open\<close>
  "demo_loaded =
     \<lparr>items = demo_items, lastDay = Some ''1'', searchParams = [(''dia'', ''1'')],
      tabList = Some demo_tabs, panelsContainer = True, win = Some demo_globals,
      diary = Some \<lparr>section_hidden = True, section_card = True, diary_list = Some []\<rparr>,
      diary_attached = False, focus = None\<rparr>"


text \<open>
  The id that the page activates when it loads. \<open>claimed_initial_id\<close> follows the words
  of the specification: the URL parameter if present, else the stored last day if
  present, else the first day, else the diary. \<open>initial_id\<close> treats an empty value as
  the source does: a parameter that is present but empty, and a stored last day that is
  empty, lead to the first day.
\<close>

definition first_or_diary :: "day list \<Rightarrow> string" where
  "first_or_diary data = (if data \<noteq> [] then toString (day_id (hd data)) else ''diary'')"

definition claimed_initial_id :: "page \<Rightarrow> day list \<Rightarrow> string" where
  "claimed_initial_id s data =
     (case sp_get (searchParams s) ''dia'' of
        Some v \<Rightarrow> v
      | None \<Rightarrow> (case lastDay s of Some v \<Rightarrow> v | None \<Rightarrow> first_or_diary data))"

definition initial_id :: "page \<Rightarrow> day list \<Rightarrow> string" where
  "initial_id s data =
     (case sp_get (searchParams s) ''dia'' of
        Some v \<Rightarrow> (if v \<noteq> [] then v else first_or_diary data)
      | None \<Rightarrow>
          (case lastDay s of
             Some v \<Rightarrow> (if v \<noteq> [] then v else first_or_diary data)
           | None \<Rightarrow> first_or_diary data))"

definition demo_built :: page where
  \<comment> \<open>\<open>demo_page\<close> once \<open>buildTabs\<close> has run, before any tab is activated\<close>
  "demo_built =
     \<lparr>items = demo_items, lastDay = None, searchParams = [],
      tabList = Some
        [\<lparr>tab_id = ''tab-1'', aria_selected = False, tabindex = - 1, tab_active = False,
          textContent = DiaCount 1 1 2\<rparr>,
         \<lparr>tab_id = ''tab-2'', aria_selected = False, tabindex = - 1, tab_active = False,
          textContent = DiaCheck 2\<rparr>,
         \<lparr>tab_id = ''tab-diary'', aria_selected = False, tabindex = - 1,
          tab_active = False, textContent = Diario\<rparr>],
      panelsContainer = True,
      win = Some \<lparr>itineraryData = demo_itinerary, tabPanels = []\<rparr>,
      diary = Some \<lparr>section_hidden = True, section_card = True, diary_list = Some []\<rparr>,
      diary_attached = False, focus = None\<rparr>"

definition empty_dia_page :: page where
  \<comment> \<open>the built page when the URL ends in \<open>?dia=\<close> and the stored last day is \<open>2\<close>\<close>
  "empty_dia_page = demo_built\<lparr>searchParams := [(''dia'', [])], lastDay := Some ''2''\<rparr>"


text \<open>
  The diary, as the specification words it. A key matches the naming scheme when it is
  \<open>day-\<close>, a run of digits, \<open>-item-\<close> and a run of digits; its day is the number the
  first run denotes. A stored value has a non-empty note when it is an object whose
  \<open>note\<close> is truthy: a string other than the empty one, as the program writes it, or
  any other value than \<open>null\<close>, \<open>false\<close> and \<open>0\<close>. \<open>scan_key\<close> is what one round of the
  loop of \<open>updateDiary\<close> adds to the entries.
\<close>

definition scan_key :: "storage \<Rightarrow> string \<Rightarrow> diary_entry list" where
  "scan_key st key =
     (case getItem st key of
        Some (Json (JsonObject ps)) \<Rightarrow>
          (case map_of ps ''note'' of
             Some n \<Rightarrow>
               (if truthy n then
                  (case match_item_key key of
                     Some (d, i) \<Rightarrow> [\<lparr>entry_day = parseInt d, entry_note = n\<rparr>]
                   | None \<Rightarrow> [])
                else [])
           | None \<Rightarrow> [])
      | _ \<Rightarrow> [])"

definition is_item_key :: "string \<Rightarrow> bool" where
  "is_item_key k \<longleftrightarrow>
     (\<exists>d i. d \<noteq> [] \<and> i \<noteq> [] \<and> list_all is_digit d \<and> list_all is_digit i
            \<and> k = ''day-'' @ d @ ''-item-'' @ i)"

definition key_day :: "string \<Rightarrow> nat" where
  "key_day k = parseInt (takeWhile is_digit (drop 4 k))"

definition has_note :: "stored \<Rightarrow> bool" where
  "has_note v \<longleftrightarrow>
     (\<exists>ps n. v = Json (JsonObject ps) \<and> map_of ps ''note'' = Some n \<and> truthy n)"

definition note_of :: "stored \<Rightarrow> json" where
  "note_of v = (case v of Json (JsonObject ps) \<Rightarrow> the (map_of ps ''note'') | _ \<Rightarrow> JsonNull)"

text \<open>
  Notes. \<open>persisted_property st key k\<close> is the property \<open>k\<close> of the state persisted
  under a key, \<open>None\<close> when there is none: nothing is stored, or no JSON, or no object, or
  an object without the property. \<open>reads_as_object\<close> says that the handlers of the item
  capture a plain object: nothing is stored under the key, or a text that is not JSON,
  or a falsy JSON value (all three are read as \<open>{}\<close>), or an object. \<open>text_store\<close>
  holds a JSON string under the key of an item.
\<close>

definition persisted_property :: "storage \<Rightarrow> string \<Rightarrow> string \<Rightarrow> json option" where
  "persisted_property st key k =
     (case getItem st key of Some (Json j) \<Rightarrow> property j k | _ \<Rightarrow> None)"

definition reads_as_object :: "storage \<Rightarrow> string \<Rightarrow> bool" where
  "reads_as_object st key \<longleftrightarrow>
     (case getItem st key of
        None \<Rightarrow> True
      | Some Malformed \<Rightarrow> True
      | Some (Json j) \<Rightarrow> (case j of JsonObject ps \<Rightarrow> True | _ \<Rightarrow> \<not> truthy j))"

definition text_store :: storage where
  "text_store = [(''day-1-item-0'', Json (JsonString ''abc''))]"

definition demo_diary :: page where
  \<comment> \<open>\<open>demo_loaded\<close> with the diary panel open: the diary section is in the document\<close>
  "demo_diary = (case openTab ''diary'' demo_loaded of Inr s \<Rightarrow> s | Inl e \<Rightarrow> demo_loaded)"


text \<open>
  Keyboard navigation: \<open>moved_to j tabs s r\<close> says that the result \<open>r\<close> of a key press
  is the page in which tab \<open>j\<close> has the focus and has been activated.
\<close>

definition moved_to :: "nat \<Rightarrow> tab list \<Rightarrow> page \<Rightarrow> error + page \<Rightarrow> bool" where
  "moved_to j tabs s r \<longleftrightarrow>
     (\<exists>s'. r = Inr s' \<and> focus s' = Some j
           \<and> r = openTab (getIdFromTab (tabs ! j)) (s\<lparr>focus := Some j\<rparr>))"

text \<open>
  What an activation leaves on the screen: the ids of the tabs marked selected, the
  panels the page holds, and the keys of those that are shown. \<open>tab_marks\<close> is the part
  of a tab that \<open>updateDayProgress\<close> never writes; \<open>panel_expected\<close> tells whether the
  page holds a panel for an id once \<open>openTab\<close> has tried to create it.
\<close>

definition selected_ids :: "page \<Rightarrow> string list" where
  "selected_ids s =
     map getIdFromTab (filter aria_selected (case tabList s of None \<Rightarrow> [] | Some tabs \<Rightarrow> tabs))"

definition panels_of :: "page \<Rightarrow> (string \<times> panel) list" where
  "panels_of s = (case win s of None \<Rightarrow> [] | Some w \<Rightarrow> tabPanels w)"

definition shown_ids :: "page \<Rightarrow> string list" where
  "shown_ids s =
     map fst (filter (\<lambda>kp. panel_active (snd kp) \<and> \<not> panel_hidden (snd kp)) (panels_of s))"

definition tab_marks :: "tab \<Rightarrow> string \<times> bool" where
  "tab_marks t = (tab_id t, aria_selected t)"

definition panel_expected :: "string \<Rightarrow> page \<Rightarrow> globals \<Rightarrow> bool" where
  "panel_expected i s w \<longleftrightarrow>
     map_of (tabPanels w) i \<noteq> None
     \<or> panelsContainer s \<and> (i = ''diary'' \<or> find_day (itineraryData w) i \<noteq> None)"

definition demo_unknown :: page where
  \<comment> \<open>\<open>demo_loaded\<close> after \<open>openTab('99')\<close>, the id of no tab and no day\<close>
  "demo_unknown = (case openTab ''99'' demo_loaded of Inr s \<Rightarrow> s | Inl e \<Rightarrow> demo_loaded)"


text \<open>
  Progress. The specification counts the item state entries persisted for a day that
  have \<open>completed = true\<close>: \<open>persisted_completed\<close> is the number of stored keys of the
  naming scheme whose day is the day's id and whose stored object has \<open>completed\<close> equal
  to \<open>true\<close>, whatever the index of the key; \<open>claimed_text\<close> is the rendering of that
  count and of the number of the day's items.

  The program counts over the items of the day. The entry of item \<open>j\<close> is completed
  when an object is stored under the item's key whose \<open>completed\<close> is truthy (the
  program itself writes \<open>true\<close> and \<open>false\<close> only); \<open>completed_count\<close> is the number of
  indices below the number of the day's activities with such an entry. The tab of a day
  is the first tab whose id is \<open>tab-N\<close>, the element \<open>getElementById\<close> finds; it shows
  the progress when its text is the rendering of that count and of the number of
  activities. A day has one item for each activity when the list items that
  \<open>initScheduleItemsForDay\<close> finds in its panel are those of its activities, none being
  nested in a description, a transport detail, a title or a highlight; \<open>panel_holds\<close>
  says that the panel of a day, if the page holds it, has one control for each activity.

  \<open>in_step\<close> says that the value captured by the handlers of an item is what the store
  reads as under the item's key, up to the properties of an array, which are not
  written. \<open>panels_synced\<close> says that every day panel is stored under the id of a day
  of the itinerary, holds the items of that day's panel, and that the value captured
  by the handlers of each item is in step with the store. \<open>page_inv\<close> is the invariant
  of the built page; \<open>built_tab\<close> is the tab that \<open>buildTabs\<close> leaves for a day.
\<close>

definition persisted_completed :: "storage \<Rightarrow> int \<Rightarrow> nat" where
  "persisted_completed st dayId =
     length (filter
       (\<lambda>kv. (case match_item_key (fst kv) of
                 None \<Rightarrow> False
               | Some (d, i) \<Rightarrow>
                   int (parseInt d) = dayId
                   \<and> (case snd kv of
                        Malformed \<Rightarrow> False
                      | Json j \<Rightarrow> property j ''completed'' = Some (JsonBool True))))
       st)"

definition claimed_text :: "storage \<Rightarrow> day \<Rightarrow> tab_text" where
  "claimed_text st d =
     progress_text (day_id d) (persisted_completed st (day_id d)) (length (schedule d))"

definition entry_completed :: "storage \<Rightarrow> int \<Rightarrow> nat \<Rightarrow> bool" where
  "entry_completed st d j \<longleftrightarrow>
     (\<exists>ps x. getItem st (itemKey d j) = Some (Json (JsonObject ps))
            \<and> map_of ps ''completed'' = Some x \<and> truthy x)"

definition one_item_each :: "day \<Rightarrow> bool" where
  "one_item_each d \<longleftrightarrow> panel_items d = length (schedule d)"

fun reloaded :: "js_value \<Rightarrow> js_value" where
  "reloaded (ArrayObject xs ps) = ArrayObject xs []"
| "reloaded (PlainObject ps) = PlainObject ps"
| "reloaded (StringValue s) = StringValue s"
| "reloaded (NumberValue n) = NumberValue n"
| "reloaded (BoolValue b) = BoolValue b"

definition in_step :: "storage \<Rightarrow> string \<Rightarrow> js_value \<Rightarrow> bool" where
  "in_step st key v \<longleftrightarrow> load_saved st key = reloaded v"

definition completed_count :: "storage \<Rightarrow> day \<Rightarrow> nat" where
  "completed_count st d =
     card {j. j < length (schedule d) \<and> entry_completed st (day_id d) j}"

definition tab_of :: "tab list \<Rightarrow> day \<Rightarrow> tab option" where
  "tab_of tabs d = find (\<lambda>t. tab_id t = ''tab-'' @ toString (day_id d)) tabs"

definition tab_shows :: "storage \<Rightarrow> tab list \<Rightarrow> day \<Rightarrow> bool" where
  "tab_shows st tabs d \<longleftrightarrow>
     (\<exists>t. tab_of tabs d = Some t
          \<and> textContent t
              = progress_text (day_id d) (completed_count st d) (length (schedule d)))"

definition progress_shown :: "page \<Rightarrow> bool" where
  "progress_shown s \<longleftrightarrow>
     (\<exists>tabs w. tabList s = Some tabs \<and> win s = Some w
              \<and> list_all (tab_shows (items s) tabs) (itineraryData w))"

definition panel_holds :: "(string \<times> panel) list \<Rightarrow> day \<Rightarrow> bool" where
  "panel_holds ps d \<longleftrightarrow>
     (case map_of ps (toString (day_id d)) of
        None \<Rightarrow> True
      | Some pan \<Rightarrow>
          (case content pan of
             DayPanel dd uis \<Rightarrow> dd = day_id d \<and> length uis = length (schedule d)
           | DiaryPanel m \<Rightarrow> True))"

definition panels_synced :: "day list \<Rightarrow> storage \<Rightarrow> (string \<times> panel) list \<Rightarrow> bool" where
  "panels_synced data st ps \<longleftrightarrow>
     (\<forall>p pan d uis j. map_of ps p = Some pan \<longrightarrow> content pan = DayPanel d uis \<longrightarrow>
        (\<exists>dd. find_day data p = Some dd \<and> day_id dd = d \<and> length uis = panel_items dd)
        \<and> (j < length uis \<longrightarrow> in_step st (itemKey d j) (saved (uis ! j))))"

definition page_inv :: "day list \<Rightarrow> page \<Rightarrow> bool" where
  "page_inv data s \<longleftrightarrow>
     (\<exists>tabs w. tabList s = Some tabs \<and> win s = Some w \<and> itineraryData w = data
              \<and> list_all (tab_shows (items s) tabs) data
              \<and> panels_synced data (items s) (tabPanels w))"

definition built_tab :: "storage \<Rightarrow> day \<Rightarrow> tab" where
  "built_tab st d =
     \<lparr>tab_id = ''tab-'' @ toString (day_id d), aria_selected = False, tabindex = - 1,
      tab_active = False,
      textContent = progress_text (day_id d)
        (count_completed st (day_id d) (length (schedule d)) 0 0) (length (schedule d))\<rparr>"

text \<open>
  A store with an entry under an index that the first day of the example does not have,
  and an entry whose \<open>completed\<close> is \<open>1\<close>; the page before the script runs on it, and
  the tabs that the script leaves.
\<close>

definition stray_items :: storage where
  "stray_items =
     [(''day-1-item-5'', Json (JsonObject [(''completed'', JsonBool True)])),
      (''day-2-item-0'', Json (JsonObject [(''completed'', JsonNumber 1)]))]"

definition stray_page :: page where
  "stray_page = demo_page\<lparr>items := stray_items\<rparr>"

definition stray_tabs :: "tab list" where
  "stray_tabs =
     [\<lparr>tab_id = ''tab-1'', aria_selected = True, tabindex = 0, tab_active = True,
       textContent = DiaCount 1 0 2\<rparr>,
      \<lparr>tab_id = ''tab-2'', aria_selected = False, tabindex = - 1, tab_active = False,
       textContent = DiaCheck 2\<rparr>,
      \<lparr>tab_id = ''tab-diary'', aria_selected = False, tabindex = - 1,
       tab_active = False, textContent = Diario\<rparr>]"

definition stray_loaded :: page where
  "stray_loaded =
     \<lparr>items = stray_items, lastDay = Some ''1'', searchParams = [(''dia'', ''1'')],
      tabList = Some stray_tabs, panelsContainer = True,
      win = Some
        \<lparr>itineraryData = demo_itinerary,
         tabPanels =
           [(''1'',
             \<lparr>panel_id = ''panel-1'', panel_active = True, panel_hidden = False,
              content = DayPanel 1
                [\<lparr>li_completed = False, saved = PlainObject [], note_display = NoteHidden\<rparr>,
                 \<lparr>li_completed = False, saved = PlainObject [],
                  note_display = NoteHidden\<rparr>]\<rparr>)]\<rparr>,
      diary = Some \<lparr>section_hidden = True, section_card = True, diary_list = Some []\<rparr>,
      diary_attached = False, focus = None\<rparr>"

text \<open>
  An itinerary whose two days have the same id, and the page that the script leaves for
  it on an empty store.
\<close>

definition twin_itinerary :: "day list" where
  "twin_itinerary = [demo_itinerary ! 0, (demo_itinerary ! 1)\<lparr>day_id := 1\<rparr>]"

definition twin_tabs :: "tab list" where
  "twin_tabs =
     [\<lparr>tab_id = ''tab-1'', aria_selected = True, tabindex = 0, tab_active = True,
       textContent = DiaCount 1 0 2\<rparr>,
      \<lparr>tab_id = ''tab-1'', aria_selected = True, tabindex = 0, tab_active = True,
       textContent = Dia 1\<rparr>,
      \<lparr>tab_id = ''tab-diary'', aria_selected = False, tabindex = - 1,
       tab_active = False, textContent = Diario\<rparr>]"

definition twin_loaded :: page where
  "twin_loaded =
     \<lparr>items = [], lastDay = Some ''1'', searchParams = [(''dia'', ''1'')],
      tabList = Some twin_tabs, panelsContainer = True,
      win = Some
        \<lparr>itineraryData = twin_itinerary,
         tabPanels =
           [(''1'',
             \<lparr>panel_id = ''panel-1'', panel_active = True, panel_hidden = False,
              content = DayPanel 1
                [\<lparr>li_completed = False, saved = PlainObject [], note_display = NoteHidden\<rparr>,
                 \<lparr>li_completed = False, saved = PlainObject [],
                  note_display = NoteHidden\<rparr>]\<rparr>)]\<rparr>,
      diary = Some \<lparr>section_hidden = True, section_card = True, diary_list = Some []\<rparr>,
      diary_attached = False, focus = None\<rparr>"

text \<open>
  An itinerary whose first activity holds a list item in its description: the panel of
  the day has three list items, and the second activity is item 2. \<open>nested_done\<close> is the
  page after loading it on an empty store and clicking the done buttons of both
  activities, items 0 and 2.
\<close>

definition nested_itinerary :: "day list" where
  "nested_itinerary =
     [\<lparr>day_id = 1, title = ''Chegada'', subtitle = [], highlight = None, header_items = 0,
       schedule =
         [\<lparr>time = ''09:00'', html = ''Cafe <ul><li>mate</li></ul>'', transport = None,
           nested_items = 1\<rparr>,
          demo_activity]\<rparr>]"

definition nested_done :: page where
  "nested_done =
     \<lparr>items =
        [(''day-1-item-0'', Json (JsonObject [(''completed'', JsonBool True)])),
         (''day-1-item-2'', Json (JsonObject [(''completed'', JsonBool True)]))],
      lastDay = Some ''1'', searchParams = [(''dia'', ''1'')],
      tabList = Some
        [\<lparr>tab_id = ''tab-1'', aria_selected = True, tabindex = 0, tab_active = True,
          textContent = DiaCount 1 1 2\<rparr>,
         \<lparr>tab_id = ''tab-diary'', aria_selected = False, tabindex = - 1,
          tab_active = False, textContent = Diario\<rparr>],
      panelsContainer = True,
      win = Some
        \<lparr>itineraryData = nested_itinerary,
         tabPanels =
           [(''1'',
             \<lparr>panel_id = ''panel-1'', panel_active = True, panel_hidden = False,
              content = DayPanel 1
                [\<lparr>li_completed = True, saved = PlainObject [(''completed'', JsonBool True)],
                  note_display = NoteHidden\<rparr>,
                 \<lparr>li_completed = False, saved = PlainObject [], note_display = NoteHidden\<rparr>,
                 \<lparr>li_completed = True, saved = PlainObject [(''completed'', JsonBool True)],
                  note_display = NoteHidden\<rparr>]\<rparr>)]\<rparr>,
      diary = Some \<lparr>section_hidden = True, section_card = True, diary_list = Some []\<rparr>,
      diary_attached = False, focus = None\<rparr>"

text \<open>
  The states of the page: the one the script leaves when the document has loaded, and
  those that clicks on tabs, on the done and note buttons and key presses lead to.
\<close>

inductive reachable :: "day list \<Rightarrow> page \<Rightarrow> bool" for data where
  loaded: "win s0 = None \<Longrightarrow> DOMContentLoaded data s0 = Inr s \<Longrightarrow> reachable data s"
| activated: "reachable data s \<Longrightarrow> openTab i s = Inr s' \<Longrightarrow> reachable data s'"
| toggled: "reachable data s \<Longrightarrow> done_click p i s = Inr s' \<Longrightarrow> reachable data s'"
| noted: "reachable data s \<Longrightarrow> note_click p i input s = Inr s' \<Longrightarrow> reachable data s'"
| key_pressed: "reachable data s \<Longrightarrow> handleTabKeyNav k s = Inr s' \<Longrightarrow> reachable data s'"


section \<open>Basic facts\<close>

subsection \<open>Reading back what was written\<close>

lemma getItem_setItem: "getItem (setItem st k v) k' = (if k' = k then Some v else getItem st k')"
  by (simp add: getItem_def setItem_def update_conv')

lemma load_saved_setItem: "load_saved (setItem st k (Json j)) k = or_empty j"
  by (simp add: load_saved_def getItem_setItem)

lemma load_saved_other: "k' \<noteq> k \<Longrightarrow> load_saved (setItem st k v) k' = load_saved st k'"
  by (simp add: load_saved_def getItem_setItem)

lemma load_saved_cases:
  obtains (unreadable) "getItem st k = None \<or> getItem st k = Some Malformed"
      and "load_saved st k = PlainObject []"
    | (parsed) j where "getItem st k = Some (Json j)" and "load_saved st k = or_empty j"
proof (cases "getItem st k")
  case None
  then show thesis by (intro unreadable) (simp_all add: load_saved_def)
next
  case (Some v)
  then show thesis
    by (cases v) (auto simp: load_saved_def intro: unreadable parsed)
qed

lemma is_completed_load:
  "is_completed st k = truthy_property (get_property (load_saved st k) ''completed'')"
proof (cases st k rule: load_saved_cases)
  case unreadable
  then show ?thesis by (auto simp: is_completed_def truthy_property_def)
next
  case (parsed j)
  then show ?thesis
    by (cases j) (simp_all add: is_completed_def truthy_property_def)
qed

lemma persisted_load:
  "persisted_property st key k = get_property (load_saved st key) k"
proof (cases st key rule: load_saved_cases)
  case unreadable
  then show ?thesis by (auto simp: persisted_property_def)
next
  case (parsed x)
  then show ?thesis by (cases x) (simp_all add: persisted_property_def)
qed

lemma reads_as_object_load:
  "reads_as_object st key \<Longrightarrow> \<exists>ps. load_saved st key = PlainObject ps"
proof (cases st key rule: load_saved_cases)
  case unreadable
  then show ?thesis by simp
next
  case (parsed x)
  assume "reads_as_object st key"
  with parsed show ?thesis by (cases x) (simp_all add: reads_as_object_def)
qed

text \<open>The values that \<open>load_saved\<close> delivers, and those in step with the store.\<close>

lemma reloaded_or_empty [simp]: "reloaded (or_empty j) = or_empty j"
  by (cases j) simp_all

lemma reloaded_load_saved [simp]: "reloaded (load_saved st k) = load_saved st k"
  by (cases st k rule: load_saved_cases) simp_all

lemma in_step_init: "in_step st k (load_saved st k)"
  by (simp add: in_step_def)

lemma in_step_other: "k' \<noteq> k \<Longrightarrow> in_step (setItem st k x) k' v = in_step st k' v"
  by (simp add: in_step_def load_saved_other)

lemma load_saved_or_empty: "\<exists>j. load_saved st k = or_empty j"
proof (cases st k rule: load_saved_cases)
  case unreadable
  then have "load_saved st k = or_empty JsonNull" by simp
  then show ?thesis ..
next
  case (parsed j)
  then show ?thesis by blast
qed

lemma stringify_or_empty: "\<exists>j'. JSON_stringify (or_empty j) = Json j' \<and> or_empty j' = or_empty j"
  by (cases j) auto

lemma stringify_reloaded [simp]: "JSON_stringify (reloaded v) = JSON_stringify v"
  by (cases v) simp_all

lemma in_step_reload:
  assumes "in_step st k v"
  shows "load_saved (setItem st k' (JSON_stringify v)) k' = reloaded v"
proof -
  from load_saved_or_empty obtain j where "load_saved st k = or_empty j" by blast
  with assms have e: "reloaded v = or_empty j" by (simp add: in_step_def)
  from stringify_or_empty obtain j' where
    "JSON_stringify (or_empty j) = Json j'" and j': "or_empty j' = or_empty j"
    by blast
  with e have "JSON_stringify v = Json j'"
    using stringify_reloaded[of v] by simp
  with e j' show ?thesis by (simp add: load_saved_setItem)
qed

lemma in_step_written:
  assumes "in_step st k v" and "v' = set_property v p x \<or> v' = delete_property v p"
  shows "in_step (setItem st k (JSON_stringify v')) k v'"
proof -
  have "load_saved (setItem st k (JSON_stringify v')) k = reloaded v'"
  proof (cases v)
    case (PlainObject ps)
    with assms(2) show ?thesis by (auto simp: load_saved_setItem)
  next
    case (ArrayObject xs ps)
    with assms(2) show ?thesis by (auto simp: load_saved_setItem)
  next
    case (StringValue x)
    with assms(2) have "v' = v" by auto
    with in_step_reload[OF assms(1), of k] show ?thesis by simp
  next
    case (NumberValue n)
    with assms(2) have "v' = v" by auto
    with in_step_reload[OF assms(1), of k] show ?thesis by simp
  next
    case (BoolValue b)
    with assms(2) have "v' = v" by auto
    with in_step_reload[OF assms(1), of k] show ?thesis by simp
  qed
  then show ?thesis by (simp add: in_step_def)
qed

lemma completed_of_reloaded:
  "p \<noteq> ''completed'' \<Longrightarrow>
   v' = set_property v p x \<or> v' = delete_property v p \<Longrightarrow>
   get_property (reloaded v') ''completed'' = get_property (reloaded v) ''completed''"
  by (cases v) (auto simp: update_conv' delete_conv')



subsection \<open>Sequencing and what a call leaves alone\<close>

lemma keeps_refl [simp]: "keeps s s"
  by (simp add: keeps_def)

lemma keeps_trans: "keeps s s' \<Longrightarrow> keeps s' s'' \<Longrightarrow> keeps s s''"
  by (simp add: keeps_def)

lemma bind_Inr_iff: "bind m f = Inr y \<longleftrightarrow> (\<exists>x. m = Inr x \<and> f x = Inr y)"
  by (cases m) (simp_all add: bind_def)

lemma bind_Inr [simp]: "bind (Inr x) f = f x"
  by (simp add: bind_def)

lemma updateDayProgress_keeps:
  "updateDayProgress d s = Inr s' \<Longrightarrow>
     keeps s s' \<and> win s' = win s \<and> diary s' = diary s \<and> diary_attached s' = diary_attached s"
  by (auto simp: updateDayProgress_def Let_def keeps_def split: option.splits)

lemma updateDayProgress_succeeds:
  "win s = Some w \<Longrightarrow> \<exists>s'. updateDayProgress d s = Inr s'"
  by (auto simp: updateDayProgress_def Let_def split: option.splits)

lemma set_panel_keeps: "set_panel i p s = Inr s' \<Longrightarrow> keeps s s' \<and> tabList s' = tabList s"
  by (auto simp: set_panel_def keeps_def split: option.splits)

lemma set_panel_succeeds: "win s = Some w \<Longrightarrow> \<exists>s'. set_panel i p s = Inr s'"
  by (simp add: set_panel_def)

lemma initScheduleItemsForDay_keeps:
  "initScheduleItemsForDay n d s = Inr (uis, s') \<Longrightarrow> keeps s s'"
  by (auto simp: initScheduleItemsForDay_def Let_def bind_Inr_iff dest: updateDayProgress_keeps)

lemma initScheduleItemsForDay_succeeds:
  "win s = Some w \<Longrightarrow> \<exists>uis s'. initScheduleItemsForDay n d s = Inr (uis, s')"
  using updateDayProgress_succeeds[of s w d]
  by (auto simp: initScheduleItemsForDay_def Let_def)

lemma createPanel_keeps:
  assumes "createPanel i s = Inr s'"
  shows "keeps s s'"
proof (cases "\<not> panelsContainer s")
  case True
  with assms show ?thesis by (simp add: createPanel_def)
next
  case pc: False
  show ?thesis
  proof (cases "i = ''diary''")
    case True
    define s1 where "s1 = s\<lparr>diary := map_option (\<lambda>sec. sec\<lparr>section_card := False\<rparr>) (diary s),
                 diary_attached := (diary s \<noteq> None \<or> diary_attached s)\<rparr>"
    have k: "keeps s s1" by (simp add: keeps_def s1_def)
    from assms pc True obtain p where "set_panel i p s1 = Inr s'"
      by (simp add: createPanel_def Let_def s1_def)
    then show ?thesis
      using k by (blast intro: keeps_trans dest: set_panel_keeps)
  next
    case False
    show ?thesis
    proof (cases "win s")
      case None
      with assms pc False show ?thesis by (simp add: createPanel_def)
    next
      case (Some w)
      show ?thesis
      proof (cases "find_day (itineraryData w) i")
        case None
        with assms pc False Some show ?thesis by (simp add: createPanel_def)
      next
        case (Some d)
        with assms pc False \<open>win s = Some w\<close> obtain uis s1 p where
          "initScheduleItemsForDay (panel_items d) (day_id d) s = Inr (uis, s1)"
          "set_panel i p s1 = Inr s'"
          by (auto simp: createPanel_def bind_Inr_iff)
        then show ?thesis
          by (blast intro: keeps_trans dest: set_panel_keeps initScheduleItemsForDay_keeps)
      qed
    qed
  qed
qed

lemma createPanel_succeeds:
  assumes "win s = Some w"
  shows "\<exists>s'. createPanel i s = Inr s'"
proof (cases "find_day (itineraryData w) i")
  case None
  with assms show ?thesis
    by (auto simp: createPanel_def Let_def set_panel_def)
next
  case (Some d)
  obtain uis s1 where i: "initScheduleItemsForDay (panel_items d) (day_id d) s = Inr (uis, s1)"
    using initScheduleItemsForDay_succeeds[OF assms] by blast
  then have "win s1 \<noteq> None"
    using initScheduleItemsForDay_keeps[OF i] assms by (simp add: keeps_def)
  with assms Some i show ?thesis
    by (auto simp: createPanel_def Let_def set_panel_def)
qed

lemma ensure_panel_keeps: "ensure_panel i s = Inr s' \<Longrightarrow> keeps s s'"
  by (auto simp: ensure_panel_def split: option.splits if_splits dest: createPanel_keeps)

lemma ensure_panel_succeeds: "win s = Some w \<Longrightarrow> \<exists>s'. ensure_panel i s = Inr s'"
  using createPanel_succeeds[of s w i] by (simp add: ensure_panel_def)

lemma show_panels_keeps:
  "show_panels i s = Inr s' \<Longrightarrow> keeps s s' \<and> tabList s' = tabList s"
  by (auto simp: show_panels_def keeps_def split: option.splits)

lemma show_panels_succeeds: "win s = Some w \<Longrightarrow> \<exists>s'. show_panels i s = Inr s'"
  by (simp add: show_panels_def)

lemma openTab_succeeds:
  assumes "tabList s = Some tabs" "win s = Some w"
  shows "\<exists>s'. openTab i s = Inr s'"
proof -
  let ?s1 = "s\<lparr>tabList := Some (map (select_tab i) tabs)\<rparr>"
  have "win ?s1 = Some w" using assms by simp
  then obtain s2 where c: "ensure_panel i ?s1 = Inr s2"
    using ensure_panel_succeeds by blast
  then have "win s2 \<noteq> None"
    using ensure_panel_keeps[OF c] assms by (simp add: keeps_def)
  then obtain s3 where "show_panels i s2 = Inr s3"
    using show_panels_succeeds by blast
  with c assms show ?thesis
    by (simp add: openTab_def)
qed

lemma openTab_keeps:
  assumes "openTab i s = Inr s'"
  shows "items s' = items s \<and> focus s' = focus s \<and> panelsContainer s' = panelsContainer s \<and>
    tabList s' \<noteq> None \<and> win s' \<noteq> None \<and> 
    lastDay s' = (if i = ''diary'' then lastDay s else Some i) \<and>
    searchParams s' = (if i = ''diary'' then sp_delete (searchParams s) ''dia''
                        else sp_set (searchParams s) ''dia'' i)"
proof -
  from assms obtain tabs s2 s3 where
    t: "tabList s = Some tabs" and
    s2: "ensure_panel i (s\<lparr>tabList := Some (map (select_tab i) tabs)\<rparr>) = Inr s2" and
    s3: "show_panels i s2 = Inr s3" and
    s': "s' = replace_url i (persist_lastDay i s3)"
    by (auto simp: openTab_def bind_Inr_iff split: option.splits)
  have "keeps (s\<lparr>tabList := Some (map (select_tab i) tabs)\<rparr>) s3" "win s3 \<noteq> None"
    using ensure_panel_keeps[OF s2] show_panels_keeps[OF s3] s3
    by (auto simp: keeps_def show_panels_def split: option.splits)
  then show ?thesis
    using s' by (auto simp: keeps_def replace_url_def persist_lastDay_def)
qed


subsection \<open>Decimal numerals\<close>

lemma digit_table: "k < 10 \<Longrightarrow> is_digit (''0123456789'' ! k)"
  by (simp add: is_digit_def nth_Cons split: nat.splits)

lemma digit_char_is_digit: "is_digit (digit_char d)"
  by (simp add: digit_char_def digit_table)

lemma nat_toString_digits: "list_all is_digit (nat_toString n)"
  by (induction n rule: nat_toString.induct)
     (subst nat_toString.simps, simp add: digit_char_is_digit)

lemma nat_toString_nonempty: "nat_toString n \<noteq> []"
  by (subst nat_toString.simps) simp

lemma toString_not_diary: "toString i \<noteq> ''diary''"
proof -
  have "hd (nat_toString n) \<noteq> CHR ''d''" for n
    using nat_toString_digits[of n] nat_toString_nonempty[of n]
    by (cases "nat_toString n") (auto simp: is_digit_def)
  then have "hd (toString i) \<noteq> CHR ''d''"
    by (simp add: toString_def)
  then show ?thesis by auto
qed

subsection \<open>The query of the URL\<close>

lemma sp_get_sp_set: "sp_get (sp_set ps k v) k = Some v"
  by (induction ps) (auto simp: sp_get_def)

lemma sp_has_sp_delete: "\<not> sp_has (sp_delete ps k) k"
  by (induction ps) (auto simp: sp_has_def sp_delete_def)


subsection \<open>Item keys\<close>

lemma startsWith_iff: "startsWith s p \<longleftrightarrow> (\<exists>r. s = p @ r)"
proof
  assume "startsWith s p"
  then have "s = p @ drop (length p) s"
    by (metis append_take_drop_id startsWith_def)
  then show "\<exists>r. s = p @ r" ..
next
  assume "\<exists>r. s = p @ r"
  then show "startsWith s p" by (auto simp: startsWith_def)
qed

lemma not_digit_minus: "\<not> is_digit CHR ''-''"
  by (simp add: is_digit_def)

lemma match_item_key_Some_iff:
  "match_item_key k = Some (d, i) \<longleftrightarrow>
     d \<noteq> [] \<and> i \<noteq> [] \<and> list_all is_digit d \<and> list_all is_digit i
     \<and> k = ''day-'' @ d @ ''-item-'' @ i"
proof
  assume m: "match_item_key k = Some (d, i)"
  then have "startsWith k ''day-''"
    by (simp add: match_item_key_def split: if_splits)
  then obtain r where k: "k = ''day-'' @ r"
    by (auto simp: startsWith_iff)
  then have r: "drop 4 k = r" by simp
  from m r have d: "d = takeWhile is_digit r" "d \<noteq> []"
    and q: "startsWith (dropWhile is_digit r) ''-item-''"
    and i: "i = drop 6 (dropWhile is_digit r)" "i \<noteq> []" "list_all is_digit i"
    by (auto simp: match_item_key_def Let_def split: if_splits)
  from q obtain r2 where r2: "dropWhile is_digit r = ''-item-'' @ r2"
    by (auto simp: startsWith_iff)
  then have "i = r2" using i(1) by simp
  moreover have "r = takeWhile is_digit r @ dropWhile is_digit r" by simp
  ultimately have "k = ''day-'' @ d @ ''-item-'' @ i"
    using k d(1) r2 by simp
  moreover have "list_all is_digit d"
    unfolding d(1) by (simp add: list_all_iff) (meson set_takeWhileD)
  ultimately show "d \<noteq> [] \<and> i \<noteq> [] \<and> list_all is_digit d \<and> list_all is_digit i
     \<and> k = ''day-'' @ d @ ''-item-'' @ i"
    using d(2) i(2,3) by simp
next
  assume a: "d \<noteq> [] \<and> i \<noteq> [] \<and> list_all is_digit d \<and> list_all is_digit i
     \<and> k = ''day-'' @ d @ ''-item-'' @ i"
  from a have dd: "\<And>x. x \<in> set d \<Longrightarrow> is_digit x" by (simp add: list_all_iff)
  have t: "takeWhile is_digit (d @ ''-item-'' @ i) = d"
    using dd not_digit_minus by (simp add: takeWhile_append2)
  have dr: "dropWhile is_digit (d @ ''-item-'' @ i) = ''-item-'' @ i"
    using dd not_digit_minus by (simp add: dropWhile_append2)
  have s1: "startsWith (''day-'' @ d @ ''-item-'' @ i) ''day-''"
    unfolding startsWith_iff by blast
  have s2: "startsWith (''-item-'' @ i) ''-item-''"
    unfolding startsWith_iff by blast
  have d4: "drop 4 (''day-'' @ d @ ''-item-'' @ i) = d @ ''-item-'' @ i" by simp
  have d6: "drop 6 (''-item-'' @ i) = i" by simp
  from a have k: "k = ''day-'' @ d @ ''-item-'' @ i" by simp
  show "match_item_key k = Some (d, i)"
    unfolding match_item_key_def k Let_def d4 t dr d6 using a s1 s2
    by simp
qed

lemma match_item_key_None: "\<not> startsWith k ''day-'' \<Longrightarrow> match_item_key k = None"
  by (simp add: match_item_key_def)

lemma is_item_key_iff: "is_item_key k \<longleftrightarrow> match_item_key k \<noteq> None"
proof
  assume "is_item_key k"
  then obtain d i where "match_item_key k = Some (d, i)"
    unfolding is_item_key_def match_item_key_Some_iff by blast
  then show "match_item_key k \<noteq> None" by simp
next
  assume "match_item_key k \<noteq> None"
  then obtain d i where "match_item_key k = Some (d, i)" by auto
  then show "is_item_key k"
    unfolding is_item_key_def match_item_key_Some_iff by blast
qed

lemma key_day_match: "match_item_key k = Some (d, i) \<Longrightarrow> key_day k = parseInt d"
proof -
  assume "match_item_key k = Some (d, i)"
  then have k: "k = ''day-'' @ d @ ''-item-'' @ i" and dd: "list_all is_digit d"
    by (simp_all add: match_item_key_Some_iff)
  have "takeWhile is_digit (d @ ''-item-'' @ i) = d"
    using dd not_digit_minus by (simp add: takeWhile_append2 list_all_iff)
  then show ?thesis
    by (simp add: key_day_def k)
qed

subsection \<open>The scan of the diary\<close>

lemma diary_scan_concat: "diary_scan st ks = concat (map (scan_key st) ks)"
proof (induction ks)
  case Nil
  show ?case by simp
next
  case (Cons k ks)
  show ?case
  proof (cases "k = [] \<or> \<not> startsWith k ''day-''")
    case True
    then have "\<not> startsWith k ''day-''" by (auto simp: startsWith_def)
    then have "scan_key st k = []"
      by (simp add: scan_key_def match_item_key_None
          split: option.splits stored.splits json.splits)
    with True Cons show ?thesis by simp
  next
    case False
    with Cons show ?thesis
      by (cases "getItem st k")
         (auto simp: scan_key_def truthy_property_def
            split: option.splits stored.splits json.splits)
  qed
qed

lemma scan_key_pair:
  assumes "(k, v) \<in> set st" and "distinct (map fst st)"
  shows "scan_key st k =
           (if is_item_key k \<and> has_note v
            then [\<lparr>entry_day = key_day k, entry_note = note_of v\<rparr>] else [])"
proof -
  from assms have g: "getItem st k = Some v"
    by (simp add: getItem_def)
  show ?thesis
    unfolding scan_key_def g
    by (auto simp: is_item_key_iff has_note_def note_of_def key_day_match
        split: stored.splits option.splits json.splits)
qed

lemma scan_pairs_mset:
  assumes "distinct (map fst st)" and "set ps \<subseteq> set st"
  shows "mset (concat (map (scan_key st) (map fst ps))) =
           image_mset (\<lambda>kv. \<lparr>entry_day = key_day (fst kv), entry_note = note_of (snd kv)\<rparr>)
             (filter_mset (\<lambda>kv. is_item_key (fst kv) \<and> has_note (snd kv)) (mset ps))"
  using assms(2)
proof (induction ps)
  case Nil
  show ?case by simp
next
  case (Cons p ps)
  obtain k v where p: "p = (k, v)" by (cases p)
  with Cons.prems have "(k, v) \<in> set st" by simp
  from scan_key_pair[OF this assms(1)] Cons p show ?case
    by simp
qed

lemma diary_entries_sorted: "sorted (map entry_day (diary_entries st))"
  by (simp add: diary_entries_def)

lemma diary_entries_mset:
  assumes "distinct (map fst st)"
  shows "mset (diary_entries st) =
           image_mset (\<lambda>kv. \<lparr>entry_day = key_day (fst kv), entry_note = note_of (snd kv)\<rparr>)
             (filter_mset (\<lambda>kv. is_item_key (fst kv) \<and> has_note (snd kv)) (mset st))"
  using scan_pairs_mset[OF assms, of st]
  by (simp add: diary_entries_def diary_scan_concat)

lemma updateDiary_diary:
  assumes "diary_attached s" and "diary s = Some sec" and "diary_list sec \<noteq> None"
  shows "diary (updateDiary s) =
           Some (sec\<lparr>diary_list := Some (diary_entries (items s)),
                    section_hidden := (diary_entries (items s) = [])\<rparr>)"
  using assms
  by (auto simp: updateDiary_def Let_def split: option.splits)

lemma scan_key_delete: "k \<noteq> key \<Longrightarrow> scan_key (AList.delete key st) k = scan_key st k"
  by (simp add: scan_key_def getItem_def)

lemma concat_map_removeAll:
  assumes "f key = []" and "\<And>k. k \<noteq> key \<Longrightarrow> g k = f k"
  shows "concat (map g (removeAll key ks)) = concat (map f ks)"
  using assms by (induction ks) auto

lemma diary_entries_delete:
  assumes "scan_key st key = []"
  shows "diary_entries (AList.delete key st) = diary_entries st"
  using concat_map_removeAll[of "scan_key st" key "scan_key (AList.delete key st)" "map fst st"]
    assms
  by (simp add: diary_entries_def diary_scan_concat delete_keys scan_key_delete)

lemma scan_key_deleted:
  "getItem st key = Some (JSON_stringify (delete_property v ''note'')) \<Longrightarrow> scan_key st key = []"
  by (cases v) (simp_all add: scan_key_def delete_conv')

lemma scan_key_unreadable:
  "getItem st key = None \<or> getItem st key = Some Malformed \<Longrightarrow> scan_key st key = []"
  by (auto simp: scan_key_def)

subsection \<open>The counting loop\<close>

lemma count_completed_filter:
  "count_completed st d n i c =
     c + length (filter (\<lambda>j. is_completed st (itemKey d j)) [i..<n])"
proof (induction st d n i c rule: count_completed.induct)
  case (1 st d n i c)
  show ?case
  proof (cases "i < n")
    case True
    then have u: "[i..<n] = i # [i + 1..<n]" by (simp add: upt_conv_Cons)
    let ?c = "if is_completed st (itemKey d i) then c + 1 else c"
    have "count_completed st d n i c = count_completed st d n (i + 1) ?c"
      by (subst count_completed.simps) (simp only: True if_True)
    also have "\<dots> = ?c + length (filter (\<lambda>j. is_completed st (itemKey d j)) [i + 1..<n])"
      by (rule 1[OF True])
    also have "\<dots> = c + length (filter (\<lambda>j. is_completed st (itemKey d j)) [i..<n])"
      unfolding u by simp
    finally show ?thesis .
  next
    case False
    then show ?thesis
      by (subst count_completed.simps) simp
  qed
qed

lemma count_completed_card:
  "count_completed st d n 0 0 = card {j. j < n \<and> is_completed st (itemKey d j)}"
proof -
  have "{j. j < n \<and> is_completed st (itemKey d j)}
          = set (filter (\<lambda>j. is_completed st (itemKey d j)) [0..<n])"
    by auto
  then show ?thesis
    by (simp add: count_completed_filter distinct_card del: set_filter)
qed

lemma count_completed_cong:
  assumes "\<And>k. is_completed st' k = is_completed st k"
  shows "count_completed st' d n i c = count_completed st d n i c"
  by (simp add: count_completed_filter assms)

lemma is_completed_delete:
  assumes "\<not> is_completed st key"
  shows "is_completed (AList.delete key st) k = is_completed st k"
  using assms
  by (cases "k = key") (simp_all add: is_completed_def getItem_def delete_conv')


subsection \<open>Keys and focus\<close>

lemma findIndex_bounds: "- 1 \<le> findIndex P xs \<and> findIndex P xs < int (length xs)"
  by (induction xs) (auto simp: Let_def)

lemma js_rem_nonneg: "0 \<le> a \<Longrightarrow> 0 < b \<Longrightarrow> js_rem a b = a mod b"
  by (simp add: js_rem_def)

lemma focus_and_open_moves:
  assumes "tabList s = Some tabs" and "win s \<noteq> None" and "j < length tabs"
  shows "moved_to j tabs s (focus_and_open (int j) tabs s)"
proof -
  have e: "focus_and_open (int j) tabs s
             = openTab (getIdFromTab (tabs ! j)) (s\<lparr>focus := Some j\<rparr>)"
    using assms(3) by (simp add: focus_and_open_def Let_def)
  obtain s' where o: "openTab (getIdFromTab (tabs ! j)) (s\<lparr>focus := Some j\<rparr>) = Inr s'"
    using openTab_succeeds[of "s\<lparr>focus := Some j\<rparr>" tabs] assms(1,2) by fastforce
  from openTab_keeps[OF o] have "focus s' = Some j" by simp
  with e o show ?thesis by (simp add: moved_to_def)
qed

subsection \<open>Tabs and panels after an activation\<close>

lemma selected_by_marks:
  "map getIdFromTab (filter aria_selected tabs)
     = map (\<lambda>m. getIdFromTab \<lparr>tab_id = fst m, aria_selected = snd m, tabindex = 0,
                               tab_active = False, textContent = Diario\<rparr>)
         (filter snd (map tab_marks tabs))"
  by (induction tabs) (auto simp: tab_marks_def getIdFromTab_def)

lemma update_first_marks:
  "map tab_marks (update_first P (\<lambda>t. t\<lparr>textContent := x\<rparr>) tabs) = map tab_marks tabs"
  by (induction tabs) (auto simp: tab_marks_def)

lemma updateDayProgress_marks:
  assumes "updateDayProgress d s = Inr s'" and "tabList s = Some tabs"
  shows "\<exists>tabs'. tabList s' = Some tabs' \<and> map tab_marks tabs' = map tab_marks tabs"
  using assms
  by (auto simp: updateDayProgress_def Let_def update_first_marks split: option.splits)

lemma set_panel_tabs: "set_panel i p s = Inr s' \<Longrightarrow> tabList s' = tabList s"
  by (auto simp: set_panel_def split: option.splits)

lemma createPanel_marks:
  assumes "createPanel i s = Inr s'" and "tabList s = Some tabs"
  shows "\<exists>tabs'. tabList s' = Some tabs' \<and> map tab_marks tabs' = map tab_marks tabs"
proof (cases "\<not> panelsContainer s")
  case True
  with assms show ?thesis by (simp add: createPanel_def)
next
  case pc: False
  show ?thesis
  proof (cases "i = ''diary''")
    case True
    with assms pc show ?thesis
      by (auto simp: createPanel_def Let_def dest!: set_panel_tabs)
  next
    case False
    show ?thesis
    proof (cases "win s")
      case None
      with assms pc False show ?thesis by (simp add: createPanel_def)
    next
      case (Some w)
      show ?thesis
      proof (cases "find_day (itineraryData w) i")
        case None
        with assms pc False Some show ?thesis by (simp add: createPanel_def)
      next
        case (Some d)
        with assms pc False \<open>win s = Some w\<close> obtain s1 p where
          u: "updateDayProgress (day_id d) s = Inr s1" and sp: "set_panel i p s1 = Inr s'"
          by (auto simp: createPanel_def initScheduleItemsForDay_def Let_def bind_Inr_iff)
        from updateDayProgress_marks[OF u assms(2)] set_panel_tabs[OF sp] show ?thesis
          by simp
      qed
    qed
  qed
qed

lemma ensure_panel_marks:
  assumes "ensure_panel i s = Inr s'" and "tabList s = Some tabs"
  shows "\<exists>tabs'. tabList s' = Some tabs' \<and> map tab_marks tabs' = map tab_marks tabs"
proof (cases "win s")
  case None
  with assms show ?thesis by (simp add: ensure_panel_def)
next
  case (Some w)
  show ?thesis
  proof (cases "map_of (tabPanels w) i = None")
    case True
    with assms Some have "createPanel i s = Inr s'" by (simp add: ensure_panel_def)
    from createPanel_marks[OF this assms(2)] show ?thesis .
  next
    case False
    with assms Some have "s' = s" by (simp add: ensure_panel_def)
    with assms(2) show ?thesis by simp
  qed
qed

lemma select_marks:
  "map tab_marks (map (select_tab i) tabs) = map (\<lambda>t. (tab_id t, getIdFromTab t = i)) tabs"
  by (simp add: tab_marks_def select_tab_def Let_def)

lemma openTab_selected:
  assumes "openTab i s = Inr s'" and "tabList s = Some tabs"
  shows "selected_ids s' = filter (\<lambda>x. x = i) (map getIdFromTab tabs)"
proof -
  from assms obtain s2 s3 where
    s2: "ensure_panel i (s\<lparr>tabList := Some (map (select_tab i) tabs)\<rparr>) = Inr s2" and
    s3: "show_panels i s2 = Inr s3" and
    s': "s' = replace_url i (persist_lastDay i s3)"
    by (auto simp: openTab_def bind_Inr_iff split: option.splits)
  have "tabList (s\<lparr>tabList := Some (map (select_tab i) tabs)\<rparr>)
          = Some (map (select_tab i) tabs)"
    by simp
  from ensure_panel_marks[OF s2 this] obtain tabs' where t2: "tabList s2 = Some tabs'"
    and m: "map tab_marks tabs' = map (\<lambda>t. (tab_id t, getIdFromTab t = i)) tabs"
    by (auto simp only: select_marks)
  have "tabList s' = Some tabs'"
    using show_panels_keeps[OF s3] t2 s' by (simp add: replace_url_def persist_lastDay_def)
  then have "selected_ids s' = map getIdFromTab (filter aria_selected tabs')"
    by (simp add: selected_ids_def)
  also have "\<dots> = filter (\<lambda>x. x = i) (map getIdFromTab tabs)"
    unfolding selected_by_marks m
    by (induction tabs) (auto simp: getIdFromTab_def)
  finally show ?thesis .
qed

lemma filter_eq_distinct:
  "distinct xs \<Longrightarrow> x \<in> set xs \<Longrightarrow> filter (\<lambda>y. y = x) xs = [x]"
  by (induction xs) (auto simp: filter_empty_conv)

lemma find_day_Some: "find_day ds i = Some d \<Longrightarrow> toString (day_id d) = i \<and> d \<in> set ds"
  by (auto simp: find_day_def find_Some_iff)

lemma updateDayProgress_win: "updateDayProgress d s = Inr s' \<Longrightarrow> win s' = win s"
  by (simp add: updateDayProgress_keeps)

lemma createPanel_panels:
  assumes "createPanel i s = Inr s'" and "win s = Some w"
  obtains w' :: globals where "win s' = Some w'" and "itineraryData w' = itineraryData w"
    and "tabPanels w' = tabPanels w \<or> (\<exists>p. tabPanels w' = AList.update i p (tabPanels w))"
    and "map_of (tabPanels w') i \<noteq> None \<longleftrightarrow> panel_expected i s w"
proof (cases "\<not> panelsContainer s")
  case True
  with assms have "s' = s" by (simp add: createPanel_def)
  with assms(2) True that[of w] show thesis by (simp add: panel_expected_def)
next
  case pc: False
  show thesis
  proof (cases "i = ''diary''")
    case True
    with assms pc obtain p where
      "s' = s\<lparr>diary := map_option (\<lambda>sec. sec\<lparr>section_card := False\<rparr>) (diary s),
              diary_attached := (diary s \<noteq> None \<or> diary_attached s),
              win := Some (w\<lparr>tabPanels := AList.update i p (tabPanels w)\<rparr>)\<rparr>"
      by (auto simp: createPanel_def Let_def set_panel_def)
    with True pc that[of "w\<lparr>tabPanels := AList.update i p (tabPanels w)\<rparr>"] show thesis
      by (auto simp: panel_expected_def update_conv')
  next
    case False
    show thesis
    proof (cases "find_day (itineraryData w) i")
      case None
      with assms pc False have "s' = s" by (simp add: createPanel_def)
      with assms(2) None False that[of w] show thesis by (simp add: panel_expected_def)
    next
      case (Some d)
      with assms pc False obtain s1 p where
        u: "updateDayProgress (day_id d) s = Inr s1" and sp: "set_panel i p s1 = Inr s'"
        by (auto simp: createPanel_def initScheduleItemsForDay_def Let_def bind_Inr_iff)
      from updateDayProgress_win[OF u] assms(2) have "win s1 = Some w" by simp
      with sp have "win s' = Some (w\<lparr>tabPanels := AList.update i p (tabPanels w)\<rparr>)"
        by (auto simp: set_panel_def)
      with Some pc that[of "w\<lparr>tabPanels := AList.update i p (tabPanels w)\<rparr>"] show thesis
        by (auto simp: panel_expected_def update_conv')
    qed
  qed
qed

lemma ensure_panel_panels:
  assumes "ensure_panel i s = Inr s'" and "win s = Some w"
  obtains w' :: globals where "win s' = Some w'" and "itineraryData w' = itineraryData w"
    and "tabPanels w' = tabPanels w \<or> (\<exists>p. tabPanels w' = AList.update i p (tabPanels w))"
    and "map_of (tabPanels w') i \<noteq> None \<longleftrightarrow> panel_expected i s w"
proof (cases "map_of (tabPanels w) i = None")
  case True
  with assms have c: "createPanel i s = Inr s'" by (simp add: ensure_panel_def)
  from createPanel_panels[OF c assms(2)] that show thesis by metis
next
  case False
  with assms have "s' = s" by (simp add: ensure_panel_def)
  with assms(2) False that[of w] show thesis by (simp add: panel_expected_def)
qed

lemma show_panel_fst: "map fst (map (show_panel i) ps) = map fst ps"
  by (induction ps) (auto simp: show_panel_def)

lemma shown_after_show:
  "map fst (filter (\<lambda>kp. panel_active (snd kp) \<and> \<not> panel_hidden (snd kp))
                   (map (show_panel i) ps))
     = filter (\<lambda>k. k = i) (map fst ps)"
  by (induction ps) (auto simp: show_panel_def)

lemma others_hidden_after_show:
  "kp \<in> set (map (show_panel i) ps) \<Longrightarrow> fst kp \<noteq> i
     \<Longrightarrow> panel_hidden (snd kp) \<and> \<not> panel_active (snd kp)"
  by (auto simp: show_panel_def split: if_splits)

lemma openTab_panels:
  assumes "openTab i s = Inr s'" and "win s = Some w"
  obtains w2 :: globals where "panels_of s' = map (show_panel i) (tabPanels w2)"
    and "tabPanels w2 = tabPanels w \<or> (\<exists>p. tabPanels w2 = AList.update i p (tabPanels w))"
    and "map_of (tabPanels w2) i \<noteq> None \<longleftrightarrow> panel_expected i s w"
proof -
  from assms obtain tabs s2 s3 where
    s2: "ensure_panel i (s\<lparr>tabList := Some (map (select_tab i) tabs)\<rparr>) = Inr s2" and
    s3: "show_panels i s2 = Inr s3" and
    s': "s' = replace_url i (persist_lastDay i s3)"
    by (auto simp: openTab_def bind_Inr_iff split: option.splits)
  have "win (s\<lparr>tabList := Some (map (select_tab i) tabs)\<rparr>) = Some w"
    using assms(2) by simp
  from ensure_panel_panels[OF s2 this] obtain w2 :: globals where
    w2: "win s2 = Some w2"
    "tabPanels w2 = tabPanels w \<or> (\<exists>p. tabPanels w2 = AList.update i p (tabPanels w))"
    "map_of (tabPanels w2) i \<noteq> None
       \<longleftrightarrow> panel_expected i (s\<lparr>tabList := Some (map (select_tab i) tabs)\<rparr>) w"
    by metis
  from s3 w2(1) s' have e: "panels_of s' = map (show_panel i) (tabPanels w2)"
    by (auto simp: show_panels_def panels_of_def replace_url_def persist_lastDay_def)
  from w2(3) have "map_of (tabPanels w2) i \<noteq> None \<longleftrightarrow> panel_expected i s w"
    by (simp add: panel_expected_def)
  with e w2(2) that[of w2] show thesis by simp
qed


subsection \<open>Numerals and keys are injective\<close>

lemma digit_val_table: "k < 10 \<Longrightarrow> digit_val (''0123456789'' ! k) = k"
  by (simp add: digit_val_def nth_Cons split: nat.splits)

lemma digit_val_digit_char: "digit_val (digit_char d) = d mod 10"
  by (simp add: digit_char_def digit_val_table)

lemma parseInt_snoc: "parseInt (ds @ [c]) = 10 * parseInt ds + digit_val c"
  by (simp add: parseInt_def)

lemma parseInt_nat_toString: "parseInt (nat_toString n) = n"
proof (induction n rule: nat_toString.induct)
  case (1 n)
  show ?case
  proof (cases "n < 10")
    case True
    then show ?thesis
      by (subst nat_toString.simps) (simp add: parseInt_def digit_val_digit_char)
  next
    case False
    with 1 show ?thesis
      by (subst nat_toString.simps) (simp add: parseInt_snoc digit_val_digit_char)
  qed
qed

lemma nat_toString_inj: "nat_toString m = nat_toString n \<Longrightarrow> m = n"
  by (metis parseInt_nat_toString)

lemma nat_toString_hd: "hd (nat_toString n) \<noteq> CHR ''-''"
  using nat_toString_digits[of n] nat_toString_nonempty[of n]
  by (cases "nat_toString n") (auto simp: is_digit_def)

lemma toString_inj: "toString a = toString b \<Longrightarrow> a = b"
proof -
  assume e: "toString a = toString b"
  have neg: "hd (toString i) = CHR ''-'' \<longleftrightarrow> i < 0" for i
    using nat_toString_hd by (simp add: toString_def)
  from e have s: "a < 0 \<longleftrightarrow> b < 0" by (metis neg)
  show "a = b"
  proof (cases "a < 0")
    case True
    with s e have "nat (- a) = nat (- b)"
      by (auto simp: toString_def dest: nat_toString_inj)
    with True s show ?thesis by simp
  next
    case False
    with s e have "nat a = nat b"
      by (auto simp: toString_def dest: nat_toString_inj)
    with False s show ?thesis by simp
  qed
qed

lemma is_digit_not_i: "is_digit c \<Longrightarrow> c \<noteq> CHR ''i''"
  by (auto simp: is_digit_def)

lemma toString_no_i: "c \<in> set (toString d) \<Longrightarrow> c \<noteq> CHR ''i''"
  using nat_toString_digits is_digit_not_i
  by (auto simp: toString_def list_all_iff split: if_splits)

lemma itemKey_inj:
  assumes "itemKey d i = itemKey d' i'"
  shows "d = d' \<and> i = i'"
proof -
  let ?P = "\<lambda>c. c \<noteq> CHR ''i''"
  have t: "takeWhile ?P (toString x @ ''-item-'' @ r) = toString x @ ''-''" for x r
    using toString_no_i by (simp add: takeWhile_append2)
  from assms have e: "toString d @ ''-item-'' @ nat_toString i
                    = toString d' @ ''-item-'' @ nat_toString i'"
    by (simp add: itemKey_def)
  then have "takeWhile ?P (toString d @ ''-item-'' @ nat_toString i)
           = takeWhile ?P (toString d' @ ''-item-'' @ nat_toString i')"
    by (rule arg_cong)
  then have td: "toString d = toString d'"
    unfolding t by simp
  with e have "nat_toString i = nat_toString i'" by simp
  with td show ?thesis
    by (auto dest: toString_inj nat_toString_inj)
qed

subsection \<open>The invariant of the built page\<close>

lemma is_completed_iff: "is_completed st (itemKey d j) \<longleftrightarrow> entry_completed st d j"
proof (cases "getItem st (itemKey d j)")
  case None
  then show ?thesis by (simp add: is_completed_def entry_completed_def)
next
  case (Some v)
  show ?thesis
  proof (cases v)
    case Malformed
    with Some show ?thesis by (simp add: is_completed_def entry_completed_def)
  next
    case (Json x)
    with Some show ?thesis
      by (cases x)
         (auto simp: is_completed_def entry_completed_def truthy_property_def
            split: option.splits)
  qed
qed

lemma count_completed_count:
  "count_completed st (day_id d) (length (schedule d)) 0 0 = completed_count st d"
  by (simp add: count_completed_card completed_count_def is_completed_iff)

lemma find_update_first_same:
  assumes "\<And>x. P x \<Longrightarrow> P (f x)"
  shows "find P (update_first P f xs) = map_option f (find P xs)"
  using assms by (induction xs) auto

lemma find_update_first_other:
  assumes "\<And>x. P x \<Longrightarrow> \<not> Q x \<and> \<not> Q (f x)"
  shows "find Q (update_first P f xs) = find Q xs"
  using assms by (induction xs) auto

lemma find_day_distinct:
  assumes "distinct (map day_id ds)" and "d \<in> set ds"
  shows "find_day ds (toString (day_id d)) = Some d"
  using assms
proof (induction ds)
  case Nil
  then show ?case by simp
next
  case (Cons x ds)
  show ?case
  proof (cases "x = d")
    case True
    then show ?thesis by (simp add: find_day_def)
  next
    case False
    with Cons.prems have "d \<in> set ds" "day_id x \<noteq> day_id d" by auto
    with Cons show ?thesis
      by (auto simp: find_day_def dest: toString_inj)
  qed
qed

lemma find_day_None: "find_day ds i = None \<Longrightarrow> d \<in> set ds \<Longrightarrow> toString (day_id d) \<noteq> i"
  by (auto simp: find_day_def find_None_iff)

lemma tab_of_update_same:
  "tab_of (update_first (\<lambda>t. tab_id t = ''tab-'' @ toString (day_id d))
             (\<lambda>t. t\<lparr>textContent := x\<rparr>) tabs) d
     = map_option (\<lambda>t. t\<lparr>textContent := x\<rparr>) (tab_of tabs d)"
  unfolding tab_of_def by (rule find_update_first_same) simp

lemma tab_of_update_other:
  "day_id d \<noteq> dd \<Longrightarrow>
   tab_of (update_first (\<lambda>t. tab_id t = ''tab-'' @ toString dd)
             (\<lambda>t. t\<lparr>textContent := x\<rparr>) tabs) d
     = tab_of tabs d"
  unfolding tab_of_def by (rule find_update_first_other) (auto dest: toString_inj)

lemma updateDayProgress_shows:
  assumes dist: "distinct (map day_id data)"
    and t: "tabList s = Some tabs" and w: "win s = Some w" and i: "itineraryData w = data"
    and others: "\<And>d. d \<in> set data \<Longrightarrow> day_id d \<noteq> dd \<Longrightarrow> tab_shows (items s) tabs d"
    and have_tab: "\<And>d. d \<in> set data \<Longrightarrow> tab_of tabs d \<noteq> None"
  shows "\<exists>tabs'. updateDayProgress dd s = Inr (s\<lparr>tabList := Some tabs'\<rparr>)
           \<and> list_all (tab_shows (items s) tabs') data"
proof (cases "find_day data (toString dd)")
  case None
  then have "\<And>d. d \<in> set data \<Longrightarrow> day_id d \<noteq> dd"
    by (auto dest: find_day_None)
  with others have "list_all (tab_shows (items s) tabs) data"
    by (simp add: list_all_iff)
  moreover from None t w i have "updateDayProgress dd s = Inr (s\<lparr>tabList := Some tabs\<rparr>)"
    by (simp add: updateDayProgress_def)
  ultimately show ?thesis by blast
next
  case (Some d0)
  then have d0: "d0 \<in> set data" "day_id d0 = dd"
    by (auto dest: find_day_Some toString_inj)
  let ?x = "progress_text dd (count_completed (items s) dd (length (schedule d0)) 0 0)
              (length (schedule d0))"
  let ?tabs' = "update_first (\<lambda>t. tab_id t = ''tab-'' @ toString dd)
                  (\<lambda>t. t\<lparr>textContent := ?x\<rparr>) tabs"
  from Some t w i have u: "updateDayProgress dd s = Inr (s\<lparr>tabList := Some ?tabs'\<rparr>)"
    by (simp add: updateDayProgress_def Let_def)
  have "tab_shows (items s) ?tabs' d" if d: "d \<in> set data" for d
  proof (cases "day_id d = dd")
    case True
    with d d0 dist have "d = d0"
      by (metis distinct_map inj_onD)
    from have_tab[OF d] obtain t0 where "tab_of tabs d = Some t0" by auto
    then have "tab_of ?tabs' d = Some (t0\<lparr>textContent := ?x\<rparr>)"
      using tab_of_update_same[of d ?x tabs] True by simp
    moreover have "?x = progress_text (day_id d) (completed_count (items s) d)
                          (length (schedule d))"
      using count_completed_count[of "items s" d0] d0(2) \<open>d = d0\<close> by simp
    ultimately show ?thesis by (simp add: tab_shows_def)
  next
    case False
    from others[OF d False] tab_of_update_other[OF False, of ?x tabs] show ?thesis
      by (simp add: tab_shows_def)
  qed
  then have "list_all (tab_shows (items s) ?tabs') data"
    by (simp add: list_all_iff)
  with u show ?thesis by blast
qed

lemma page_invI:
  "tabList s = Some tabs \<Longrightarrow> win s = Some w \<Longrightarrow> itineraryData w = data
   \<Longrightarrow> list_all (tab_shows (items s) tabs) data
   \<Longrightarrow> panels_synced data (items s) (tabPanels w) \<Longrightarrow> page_inv data s"
  unfolding page_inv_def by blast

lemma page_invE:
  assumes "page_inv data s"
  obtains tabs and w :: globals where "tabList s = Some tabs" and "win s = Some w"
    and "itineraryData w = data" and "list_all (tab_shows (items s) tabs) data"
    and "panels_synced data (items s) (tabPanels w)"
  using assms unfolding page_inv_def by blast

lemma tab_shows_has_tab: "tab_shows st tabs d \<Longrightarrow> tab_of tabs d \<noteq> None"
  by (auto simp: tab_shows_def)

lemma updateDayProgress_inv:
  assumes "distinct (map day_id data)" and "page_inv data s"
  shows "\<exists>s'. updateDayProgress dd s = Inr s' \<and> page_inv data s'
           \<and> items s' = items s \<and> win s' = win s"
proof -
  from assms(2) obtain tabs and w :: globals where
    t: "tabList s = Some tabs" and w: "win s = Some w" and i: "itineraryData w = data"
    and sh: "list_all (tab_shows (items s) tabs) data"
    and sy: "panels_synced data (items s) (tabPanels w)"
    by (rule page_invE)
  from sh have a: "\<And>d. d \<in> set data \<Longrightarrow> tab_shows (items s) tabs d"
    by (simp add: list_all_iff)
  from updateDayProgress_shows[OF assms(1) t w i, of dd] a tab_shows_has_tab
  obtain tabs' where u: "updateDayProgress dd s = Inr (s\<lparr>tabList := Some tabs'\<rparr>)"
    and sh': "list_all (tab_shows (items s) tabs') data"
    by blast
  have "page_inv data (s\<lparr>tabList := Some tabs'\<rparr>)"
    using w i sh' sy by (intro page_invI[of _ tabs' w]) simp_all
  with u show ?thesis by simp
qed

lemma panels_synced_update:
  assumes "panels_synced data st ps"
    and "\<And>d uis j. content pan = DayPanel d uis \<Longrightarrow>
           (\<exists>dd. find_day data p = Some dd \<and> day_id dd = d \<and> length uis = panel_items dd)
           \<and> (j < length uis \<longrightarrow> in_step st (itemKey d j) (saved (uis ! j)))"
  shows "panels_synced data st (AList.update p pan ps)"
  unfolding panels_synced_def
proof (intro allI impI)
  fix q pan2 d uis j
  assume m: "map_of (AList.update p pan ps) q = Some pan2" and c: "content pan2 = DayPanel d uis"
  show "(\<exists>dd. find_day data q = Some dd \<and> day_id dd = d \<and> length uis = panel_items dd)
        \<and> (j < length uis \<longrightarrow> in_step st (itemKey d j) (saved (uis ! j)))"
  proof (cases "q = p")
    case True
    with m have "pan2 = pan" by (simp add: update_conv')
    with c True assms(2)[of d uis j] show ?thesis by simp
  next
    case False
    with m have "map_of ps q = Some pan2" by (simp add: update_conv')
    with c assms(1) show ?thesis unfolding panels_synced_def by blast
  qed
qed

lemma map_of_show_panel:
  "map_of (map (show_panel i) ps) p
     = map_option (\<lambda>pan. if p = i then pan\<lparr>panel_active := True, panel_hidden := False\<rparr>
                         else pan\<lparr>panel_active := False, panel_hidden := True\<rparr>)
         (map_of ps p)"
  by (induction ps) (auto simp: show_panel_def)

lemma map_of_show_panel_content:
  assumes "map_of (map (show_panel i) ps) p = Some pan"
  obtains pan0 where "map_of ps p = Some pan0" and "content pan = content pan0"
  using assms unfolding map_of_show_panel by (auto split: if_splits)

lemma panels_synced_show:
  assumes "panels_synced data st ps"
  shows "panels_synced data st (map (show_panel i) ps)"
  unfolding panels_synced_def
proof (intro allI impI)
  fix p pan d uis j
  assume "map_of (map (show_panel i) ps) p = Some pan" and c: "content pan = DayPanel d uis"
  then obtain pan0 where "map_of ps p = Some pan0" "content pan0 = DayPanel d uis"
    by (metis map_of_show_panel_content)
  with assms show
    "(\<exists>dd. find_day data p = Some dd \<and> day_id dd = d \<and> length uis = panel_items dd)
     \<and> (j < length uis \<longrightarrow> in_step st (itemKey d j) (saved (uis ! j)))"
    unfolding panels_synced_def by blast
qed

lemma set_panel_inv:
  assumes "page_inv data s"
    and "\<And>d uis j. content pan = DayPanel d uis \<Longrightarrow>
           (\<exists>dd. find_day data p = Some dd \<and> day_id dd = d \<and> length uis = panel_items dd)
           \<and> (j < length uis \<longrightarrow> in_step (items s) (itemKey d j) (saved (uis ! j)))"
  shows "\<exists>s'. set_panel p pan s = Inr s' \<and> page_inv data s'"
proof -
  from assms(1) obtain tabs and w :: globals where
    t: "tabList s = Some tabs" and w: "win s = Some w" and i: "itineraryData w = data"
    and sh: "list_all (tab_shows (items s) tabs) data"
    and sy: "panels_synced data (items s) (tabPanels w)"
    by (rule page_invE)
  let ?w' = "w\<lparr>tabPanels := AList.update p pan (tabPanels w)\<rparr>"
  have "page_inv data (s\<lparr>win := Some ?w'\<rparr>)"
    using t i sh panels_synced_update[OF sy assms(2)]
    by (intro page_invI[of _ tabs ?w']) simp_all
  with w show ?thesis by (simp add: set_panel_def)
qed

lemma init_items_synced:
  "j < length (map (\<lambda>index. init_item st (itemKey d index)) [0..<n]) \<Longrightarrow>
   in_step st (itemKey d j) (saved (map (\<lambda>index. init_item st (itemKey d index)) [0..<n] ! j))"
  by (simp add: init_item_def Let_def in_step_init)

lemma page_inv_frame:
  assumes "page_inv data s" and "tabList s' = tabList s" and "win s' = win s"
    and "items s' = items s"
  shows "page_inv data s'"
  using assms unfolding page_inv_def by simp

lemma createPanel_inv:
  assumes dist: "distinct (map day_id data)" and inv: "page_inv data s"
    and c: "createPanel i s = Inr s'"
  shows "page_inv data s'"
proof (cases "\<not> panelsContainer s")
  case True
  with c inv show ?thesis by (simp add: createPanel_def)
next
  case pc: False
  from inv obtain tabs and w :: globals where
    w: "win s = Some w" and i: "itineraryData w = data"
    by (rule page_invE)
  show ?thesis
  proof (cases "i = ''diary''")
    case True
    let ?s1 = "s\<lparr>diary := map_option (\<lambda>sec. sec\<lparr>section_card := False\<rparr>) (diary s),
                 diary_attached := (diary s \<noteq> None \<or> diary_attached s)\<rparr>"
    have i1: "page_inv data ?s1"
      using inv by (rule page_inv_frame) simp_all
    from c pc True obtain m where
      sp: "set_panel i \<lparr>panel_id = ''panel-diary'', panel_active = False,
             panel_hidden = False, content = DiaryPanel m\<rparr> ?s1 = Inr s'"
      by (simp add: createPanel_def Let_def)
    have "\<exists>s''. set_panel i \<lparr>panel_id = ''panel-diary'', panel_active = False,
             panel_hidden = False, content = DiaryPanel m\<rparr> ?s1 = Inr s'' \<and> page_inv data s''"
      by (rule set_panel_inv[OF i1]) simp
    with sp show ?thesis by simp
  next
    case False
    show ?thesis
    proof (cases "find_day data i")
      case None
      with c pc False w i inv show ?thesis by (simp add: createPanel_def)
    next
      case (Some d)
      let ?uis = "map (\<lambda>index. init_item (items s) (itemKey (day_id d) index))
                    [0..<panel_items d]"
      let ?pan = "\<lparr>panel_id = ''panel-'' @ toString (day_id d), panel_active = False,
                    panel_hidden = False, content = DayPanel (day_id d) ?uis\<rparr>"
      from updateDayProgress_inv[OF dist inv, of "day_id d"] obtain s1 where
        u: "updateDayProgress (day_id d) s = Inr s1" and i1: "page_inv data s1"
        and it: "items s1 = items s"
        by blast
      from c pc False w i Some u have sp: "set_panel i ?pan s1 = Inr s'"
        by (simp add: createPanel_def initScheduleItemsForDay_def Let_def)
      have "\<exists>s''. set_panel i ?pan s1 = Inr s'' \<and> page_inv data s''"
        using init_items_synced[of _ "items s" "day_id d" "panel_items d"] Some
        by (intro set_panel_inv[OF i1]) (simp add: it)
      with sp show ?thesis by simp
    qed
  qed
qed

lemma openTab_inv:
  assumes dist: "distinct (map day_id data)" and inv: "page_inv data s"
    and o: "openTab i s = Inr s'"
  shows "page_inv data s'"
proof -
  from o obtain tabs s2 s3 where
    t: "tabList s = Some tabs" and
    s2: "ensure_panel i (s\<lparr>tabList := Some (map (select_tab i) tabs)\<rparr>) = Inr s2" and
    s3: "show_panels i s2 = Inr s3" and
    s': "s' = replace_url i (persist_lastDay i s3)"
    by (auto simp: openTab_def bind_Inr_iff split: option.splits)
  let ?s1 = "s\<lparr>tabList := Some (map (select_tab i) tabs)\<rparr>"
  from inv t obtain w :: globals where
    w: "win s = Some w" and iw: "itineraryData w = data"
    and sh: "list_all (tab_shows (items s) tabs) data"
    and sy: "panels_synced data (items s) (tabPanels w)"
    by (auto elim: page_invE)
  have "tab_of (map (select_tab i) tabs) d = map_option (select_tab i) (tab_of tabs d)" for d
    unfolding tab_of_def by (induction tabs) (auto simp: select_tab_def Let_def)
  moreover have "textContent (select_tab i t) = textContent t" for t
    by (simp add: select_tab_def Let_def)
  ultimately have "tab_shows (items s) (map (select_tab i) tabs) d"
    if "tab_shows (items s) tabs d" for d
    using that by (auto simp: tab_shows_def)
  with sh have "list_all (tab_shows (items s) (map (select_tab i) tabs)) data"
    by (simp add: list_all_iff)
  then have i1: "page_inv data ?s1"
    using w iw sy by (intro page_invI[of _ "map (select_tab i) tabs" w]) simp_all
  have i2: "page_inv data s2"
    using s2 i1 createPanel_inv[OF dist i1, of i s2]
    by (auto simp: ensure_panel_def split: option.splits if_splits)
  then obtain tabs2 and w2 :: globals where
    t2: "tabList s2 = Some tabs2" and w2: "win s2 = Some w2" and iw2: "itineraryData w2 = data"
    and sh2: "list_all (tab_shows (items s2) tabs2) data"
    and sy2: "panels_synced data (items s2) (tabPanels w2)"
    by (rule page_invE)
  let ?w3 = "w2\<lparr>tabPanels := map (show_panel i) (tabPanels w2)\<rparr>"
  from s3 w2 have e3: "s3 = s2\<lparr>win := Some ?w3\<rparr>"
    by (simp add: show_panels_def)
  have "page_inv data s3"
    unfolding e3 using t2 iw2 sh2 panels_synced_show[OF sy2]
    by (intro page_invI[of _ tabs2 ?w3]) simp_all
  then show ?thesis
    unfolding s' by (rule page_inv_frame) (simp_all add: replace_url_def persist_lastDay_def)
qed

lemma entry_completed_other:
  "itemKey d j \<noteq> k \<Longrightarrow> entry_completed (setItem st k v) d j = entry_completed st d j"
  by (simp add: entry_completed_def getItem_setItem)

lemma completed_count_other:
  assumes "day_id d \<noteq> dd"
  shows "completed_count (setItem st (itemKey dd i) v) d = completed_count st d"
proof -
  have "itemKey (day_id d) j \<noteq> itemKey dd i" for j
    using assms by (auto dest: itemKey_inj)
  then show ?thesis
    by (simp add: completed_count_def entry_completed_other)
qed

lemma panels_synced_write:
  assumes sy: "panels_synced data st ps" and mp: "map_of ps p = Some pan"
    and ct: "content pan = DayPanel dd uis" and i: "i < length uis"
    and sv: "saved ui' = set_property (saved (uis ! i)) q x
             \<or> saved ui' = delete_property (saved (uis ! i)) q"
  shows "panels_synced data (setItem st (itemKey dd i) (JSON_stringify (saved ui')))
           (AList.update p (pan\<lparr>content := DayPanel dd (uis[i := ui'])\<rparr>) ps)"
  unfolding panels_synced_def
proof (intro allI impI)
  fix p2 pan2 d2 uis2 j
  let ?st' = "setItem st (itemKey dd i) (JSON_stringify (saved ui'))"
  assume m2: "map_of (AList.update p (pan\<lparr>content := DayPanel dd (uis[i := ui'])\<rparr>) ps) p2
              = Some pan2"
    and c2: "content pan2 = DayPanel d2 uis2"
  from sy mp ct obtain d0 where pd: "find_day data p = Some d0" "day_id d0 = dd"
    "length uis = panel_items d0"
    unfolding panels_synced_def by blast
  from pd have tp: "toString dd = p" by (auto dest: find_day_Some)
  show "(\<exists>d0. find_day data p2 = Some d0 \<and> day_id d0 = d2 \<and> length uis2 = panel_items d0)
        \<and> (j < length uis2 \<longrightarrow> in_step ?st' (itemKey d2 j) (saved (uis2 ! j)))"
  proof (cases "p2 = p")
    case True
    with m2 have "pan2 = pan\<lparr>content := DayPanel dd (uis[i := ui'])\<rparr>"
      by (simp add: update_conv')
    with c2 have e: "d2 = dd" "uis2 = uis[i := ui']"
      by simp_all
    have "in_step ?st' (itemKey d2 j) (saved (uis2 ! j))" if j: "j < length uis2"
    proof (cases "j = i")
      case True
      from sy mp ct i have "in_step st (itemKey dd i) (saved (uis ! i))"
        unfolding panels_synced_def by blast
      from in_step_written[OF this sv] True e i show ?thesis by simp
    next
      case False
      then have "itemKey dd j \<noteq> itemKey dd i" by (auto dest: itemKey_inj)
      moreover from sy mp ct j e have "in_step st (itemKey dd j) (saved (uis ! j))"
        unfolding panels_synced_def by auto
      ultimately show ?thesis using e False by (simp add: in_step_other)
    qed
    with True e pd show ?thesis by simp
  next
    case False
    with m2 have m: "map_of ps p2 = Some pan2" by (simp add: update_conv')
    with sy c2 obtain d3 where o: "find_day data p2 = Some d3" "day_id d3 = d2"
      "length uis2 = panel_items d3"
      unfolding panels_synced_def by blast
    from m sy c2 have o2: "j < length uis2 \<longrightarrow> in_step st (itemKey d2 j) (saved (uis2 ! j))"
      unfolding panels_synced_def by blast
    from o have "toString d2 = p2" by (auto dest: find_day_Some)
    with False tp have "d2 \<noteq> dd" by auto
    then have "itemKey d2 j \<noteq> itemKey dd i" by (auto dest: itemKey_inj)
    with o o2 show ?thesis by (simp add: in_step_other)
  qed
qed

lemma done_click_inv:
  assumes dist: "distinct (map day_id data)" and inv: "page_inv data s"
    and c: "done_click p i s = Inr s'"
  shows "page_inv data s'"
proof -
  from inv obtain tabs and w :: globals where
    t: "tabList s = Some tabs" and w: "win s = Some w" and iw: "itineraryData w = data"
    and sh: "list_all (tab_shows (items s) tabs) data"
    and sy: "panels_synced data (items s) (tabPanels w)"
    by (rule page_invE)
  show ?thesis
  proof (cases "\<exists>pan dd uis. map_of (tabPanels w) p = Some pan
                  \<and> content pan = DayPanel dd uis \<and> i < length uis")
    case False
    with c w have "s' = s"
      by (auto simp: done_click_def split: option.splits panel_content.splits if_splits)
    with inv show ?thesis by simp
  next
    case True
    then obtain pan dd uis where mp: "map_of (tabPanels w) p = Some pan"
      and ct: "content pan = DayPanel dd uis" and i: "i < length uis"
      by blast
    let ?c = "\<not> li_completed (uis ! i)"
    let ?sv = "set_property (saved (uis ! i)) ''completed'' (JsonBool ?c)"
    let ?ui = "(uis ! i)\<lparr>li_completed := ?c, saved := ?sv\<rparr>"
    let ?st = "setItem (items s) (itemKey dd i) (JSON_stringify ?sv)"
    let ?w1 = "w\<lparr>tabPanels := AList.update p (pan\<lparr>content := DayPanel dd (uis[i := ?ui])\<rparr>)
                               (tabPanels w)\<rparr>"
    let ?s1 = "s\<lparr>items := ?st, win := Some ?w1\<rparr>"
    from c w mp ct i have u: "updateDayProgress dd ?s1 = Inr s'"
      by (simp add: done_click_def done_handler_def Let_def)
    have others: "tab_shows (items ?s1) tabs d" if "d \<in> set data" "day_id d \<noteq> dd" for d
      using that sh by (simp add: list_all_iff tab_shows_def completed_count_other)
    have have_tab: "tab_of tabs d \<noteq> None" if "d \<in> set data" for d
      using that sh by (auto simp: list_all_iff dest: tab_shows_has_tab)
    from updateDayProgress_shows[OF dist, of ?s1 tabs ?w1 dd] t iw others have_tab
    obtain tabs' where u': "updateDayProgress dd ?s1 = Inr (?s1\<lparr>tabList := Some tabs'\<rparr>)"
      and sh': "list_all (tab_shows (items ?s1) tabs') data"
      by auto
    have sy': "panels_synced data ?st (tabPanels ?w1)"
      using panels_synced_write[OF sy mp ct i, of ?ui "''completed''" "JsonBool ?c"] by simp
    have "page_inv data (?s1\<lparr>tabList := Some tabs'\<rparr>)"
      using iw sh' sy' by (intro page_invI[of _ tabs' ?w1]) simp_all
    with u u' show ?thesis by simp
  qed
qed

lemma updateDiary_inv:
  assumes "page_inv data s"
  shows "page_inv data (updateDiary s)"
proof -
  from assms obtain tabs and w :: globals where
    t: "tabList s = Some tabs" and w: "win s = Some w" and iw: "itineraryData w = data"
    and sh: "list_all (tab_shows (items s) tabs) data"
    and sy: "panels_synced data (items s) (tabPanels w)"
    by (rule page_invE)
  show ?thesis
  proof (cases "\<exists>sec old pan. diary_attached s \<and> diary s = Some sec \<and> diary_list sec = Some old
                  \<and> map_of (tabPanels w) ''diary'' = Some pan")
    case False
    then have "tabList (updateDiary s) = tabList s \<and> win (updateDiary s) = win s
               \<and> items (updateDiary s) = items s"
      using w by (auto simp: updateDiary_def Let_def split: option.splits)
    with assms show ?thesis by (simp add: page_inv_frame)
  next
    case True
    then obtain sec old pan where a: "diary_attached s" "diary s = Some sec"
      "diary_list sec = Some old" "map_of (tabPanels w) ''diary'' = Some pan"
      by blast
    let ?w' = "w\<lparr>tabPanels := AList.update ''diary''
                 (pan\<lparr>content := DiaryPanel (diary_entries (items s) = [])\<rparr>) (tabPanels w)\<rparr>"
    from a w have "tabList (updateDiary s) = Some tabs \<and> win (updateDiary s) = Some ?w'
                   \<and> items (updateDiary s) = items s"
      using t by (simp add: updateDiary_def Let_def)
    moreover have "panels_synced data (items s) (tabPanels ?w')"
      by (simp, rule panels_synced_update[OF sy]) simp
    ultimately show ?thesis
      using iw sh by (intro page_invI[of _ tabs ?w']) simp_all
  qed
qed

lemma note_click_inv:
  assumes inv: "page_inv data s" and c: "note_click p i input s = Inr s'"
  shows "page_inv data s'"
proof -
  from inv obtain tabs and w :: globals where
    t: "tabList s = Some tabs" and w: "win s = Some w" and iw: "itineraryData w = data"
    and sh: "list_all (tab_shows (items s) tabs) data"
    and sy: "panels_synced data (items s) (tabPanels w)"
    by (rule page_invE)
  show ?thesis
  proof (cases "\<exists>pan dd uis n. map_of (tabPanels w) p = Some pan
                  \<and> content pan = DayPanel dd uis \<and> i < length uis \<and> input = Some n")
    case False
    with c w have "s' = s"
      by (auto simp: note_click_def split: option.splits panel_content.splits if_splits)
    with inv show ?thesis by simp
  next
    case True
    then obtain pan dd uis n where mp: "map_of (tabPanels w) p = Some pan"
      and ct: "content pan = DayPanel dd uis" and i: "i < length uis" and n: "input = Some n"
      by blast
    let ?sv = "if trim n = [] then delete_property (saved (uis ! i)) ''note''
               else set_property (saved (uis ! i)) ''note'' (JsonString (trim n))"
    let ?ui = "(uis ! i)\<lparr>saved := ?sv,
                 note_display := (if trim n = [] then NoteHidden
                                  else NoteShown (get_property ?sv ''note''))\<rparr>"
    let ?st = "setItem (items s) (itemKey dd i) (JSON_stringify ?sv)"
    let ?w1 = "w\<lparr>tabPanels := AList.update p (pan\<lparr>content := DayPanel dd (uis[i := ?ui])\<rparr>)
                               (tabPanels w)\<rparr>"
    let ?s1 = "s\<lparr>items := ?st, win := Some ?w1\<rparr>"
    from c w mp ct i n have e: "s' = updateDiary ?s1"
      by (simp add: note_click_def note_handler_def Let_def)
    from sy mp ct i have sv0: "in_step (items s) (itemKey dd i) (saved (uis ! i))"
      unfolding panels_synced_def by blast
    have wr: "?sv = set_property (saved (uis ! i)) ''note'' (JsonString (trim n))
              \<or> ?sv = delete_property (saved (uis ! i)) ''note''"
      by simp
    have ec: "entry_completed ?st d j = entry_completed (items s) d j" for d j
    proof (cases "itemKey d j = itemKey dd i")
      case True
      from in_step_written[OF sv0 wr] have "load_saved ?st (itemKey dd i) = reloaded ?sv"
        by (simp only: in_step_def)
      moreover have "get_property (reloaded ?sv) ''completed''
                       = get_property (reloaded (saved (uis ! i))) ''completed''"
        by (rule completed_of_reloaded[OF _ wr]) simp
      ultimately have "is_completed ?st (itemKey dd i) = is_completed (items s) (itemKey dd i)"
        using sv0 by (simp only: is_completed_load in_step_def)
      with True show ?thesis
        using is_completed_iff[of ?st d j] is_completed_iff[of "items s" d j] by simp
    next
      case False
      then show ?thesis by (simp add: entry_completed_other)
    qed
    have "tab_shows ?st tabs d = tab_shows (items s) tabs d" for d
      by (simp add: tab_shows_def completed_count_def ec)
    with sh have sh1: "list_all (tab_shows (items ?s1) tabs) data"
      by (simp add: list_all_iff)
    have "saved ?ui = set_property (saved (uis ! i)) ''note'' (JsonString (trim n))
          \<or> saved ?ui = delete_property (saved (uis ! i)) ''note''"
      by simp
    from panels_synced_write[OF sy mp ct i this]
    have sy1: "panels_synced data ?st (tabPanels ?w1)" by simp
    have "page_inv data ?s1"
      using t iw sh1 sy1 by (intro page_invI[of _ tabs ?w1]) simp_all
    then show ?thesis
      unfolding e by (rule updateDiary_inv)
  qed
qed

lemma handleTabKeyNav_inv:
  assumes dist: "distinct (map day_id data)" and inv: "page_inv data s"
    and c: "handleTabKeyNav k s = Inr s'"
  shows "page_inv data s'"
proof -
  have f: "page_inv data (s\<lparr>focus := x\<rparr>)" for x
    using inv by (rule page_inv_frame) simp_all
  have fo: "page_inv data s'" if "focus_and_open j tabs s = Inr s'" for j tabs
    using that f openTab_inv[OF dist] inv
    by (auto simp: focus_and_open_def Let_def split: if_splits)
  from c show ?thesis
    using fo inv openTab_inv[OF dist inv]
    by (auto simp: handleTabKeyNav_def Let_def split: option.splits if_splits)
qed

lemma update_first_append_fresh:
  "\<forall>x \<in> set xs. \<not> P x \<Longrightarrow> P y \<Longrightarrow> update_first P f (xs @ [y]) = xs @ [f y]"
  by (induction xs) auto

lemma build_day_tabs_eq:
  assumes dist: "distinct (map day_id data)"
    and "win s = Some w" and "itineraryData w = data" and "tabList s = Some tabs"
    and "set ds \<subseteq> set data" and "distinct (map day_id ds)"
    and "\<forall>t \<in> set tabs. \<forall>d \<in> set ds. tab_id t \<noteq> ''tab-'' @ toString (day_id d)"
  shows "build_day_tabs ds s = Inr (s\<lparr>tabList := Some (tabs @ map (built_tab (items s)) ds)\<rparr>)"
  using assms(2-)
proof (induction ds arbitrary: s tabs)
  case Nil
  then show ?case by simp
next
  case (Cons d ds)
  let ?nt = "new_tab (toString (day_id d)) (Dia (day_id d))"
  let ?s1 = "append_tab ?nt s"
  let ?P = "\<lambda>t. tab_id t = ''tab-'' @ toString (day_id d)"
  let ?x = "progress_text (day_id d)
              (count_completed (items s) (day_id d) (length (schedule d)) 0 0)
              (length (schedule d))"
  have s1: "?s1 = s\<lparr>tabList := Some (tabs @ [?nt])\<rparr>"
    using Cons.prems(3) by (simp add: append_tab_def)
  have fd: "find_day data (toString (day_id d)) = Some d"
    using find_day_distinct[OF dist, of d] Cons.prems(4) by simp
  have fresh: "\<forall>t \<in> set tabs. \<not> ?P t" using Cons.prems(6) by simp
  have "update_first ?P (\<lambda>t. t\<lparr>textContent := ?x\<rparr>) (tabs @ [?nt])
          = tabs @ [?nt\<lparr>textContent := ?x\<rparr>]"
    using fresh by (intro update_first_append_fresh) (simp_all add: new_tab_def)
  moreover have "?nt\<lparr>textContent := ?x\<rparr> = built_tab (items s) d"
    by (simp add: new_tab_def built_tab_def)
  ultimately have u: "updateDayProgress (day_id d) ?s1
                        = Inr (s\<lparr>tabList := Some (tabs @ [built_tab (items s) d])\<rparr>)"
    using Cons.prems(1,2) fd by (simp add: s1 updateDayProgress_def Let_def)
  let ?s2 = "s\<lparr>tabList := Some (tabs @ [built_tab (items s) d])\<rparr>"
  from Cons.prems(5) have "day_id d \<notin> set (map day_id ds)"
    by (simp only: list.map distinct.simps simp_thms)
  then have nd: "\<forall>d' \<in> set ds. day_id d' \<noteq> day_id d"
    by (metis image_eqI set_map)
  have "\<forall>t \<in> set (tabs @ [built_tab (items s) d]). \<forall>d' \<in> set ds.
          tab_id t \<noteq> ''tab-'' @ toString (day_id d')"
  proof (intro ballI)
    fix t d'
    assume t: "t \<in> set (tabs @ [built_tab (items s) d])" and d': "d' \<in> set ds"
    show "tab_id t \<noteq> ''tab-'' @ toString (day_id d')"
    proof (cases "t \<in> set tabs")
      case True
      with Cons.prems(6) d' show ?thesis by simp
    next
      case False
      with t have "tab_id t = ''tab-'' @ toString (day_id d)"
        by (simp add: built_tab_def)
      moreover have "toString (day_id d) \<noteq> toString (day_id d')"
        using nd d' by (metis toString_inj)
      ultimately show ?thesis by simp
    qed
  qed
  then have fr2: "\<forall>t \<in> set (tabs @ [built_tab (items s) d]). \<forall>d' \<in> set ds.
          tab_id t \<noteq> ''tab-'' @ toString (day_id d')" .
  have "build_day_tabs ds ?s2
          = Inr (?s2\<lparr>tabList := Some ((tabs @ [built_tab (items s) d])
                                     @ map (built_tab (items ?s2)) ds)\<rparr>)"
  proof (rule Cons.IH)
    show "win ?s2 = Some w" using Cons.prems(1) by simp
    show "itineraryData w = data" by (rule Cons.prems(2))
    show "tabList ?s2 = Some (tabs @ [built_tab (items s) d])" by simp
    show "set ds \<subseteq> set data" using Cons.prems(4) by simp
    show "distinct (map day_id ds)"
      using Cons.prems(5) by (simp only: list.map distinct.simps)
    show "\<forall>t \<in> set (tabs @ [built_tab (items s) d]). \<forall>d' \<in> set ds.
          tab_id t \<noteq> ''tab-'' @ toString (day_id d')"
      by (rule fr2)
  qed
  then have r: "build_day_tabs ds ?s2
          = Inr (s\<lparr>tabList := Some (tabs @ map (built_tab (items s)) (d # ds))\<rparr>)"
    by simp
  have "build_day_tabs (d # ds) s = build_day_tabs ds ?s2"
    by (simp only: build_day_tabs.simps u bind_Inr)
  with r show ?case by (simp only:)
qed

lemma find_built_tab:
  assumes "distinct (map day_id ds)" and "d \<in> set ds"
  shows "tab_of (map (built_tab st) ds @ rest) d = Some (built_tab st d)"
  using assms unfolding tab_of_def
proof (induction ds)
  case Nil
  then show ?case by simp
next
  case (Cons x ds)
  show ?case
  proof (cases "x = d")
    case True
    then show ?thesis by (simp add: built_tab_def)
  next
    case False
    with Cons.prems have "d \<in> set ds" "day_id x \<noteq> day_id d" by auto
    with Cons show ?thesis
      by (auto simp: built_tab_def dest: toString_inj)
  qed
qed

lemma buildTabs_inv:
  assumes dist: "distinct (map day_id data)"
    and a: "tabList s \<noteq> None" "panelsContainer s"
  shows "\<exists>s'. buildTabs data s = Inr s' \<and> page_inv data s'"
proof -
  let ?w = "\<lparr>itineraryData = data, tabPanels = []\<rparr>"
  let ?s0 = "s\<lparr>tabList := Some [], win := Some ?w\<rparr>"
  let ?tabs = "map (built_tab (items s)) data"
  let ?s1 = "?s0\<lparr>tabList := Some ?tabs\<rparr>"
  let ?rest = "if diary s \<noteq> None then [new_tab ''diary'' Diario] else []"
  let ?s2 = "?s0\<lparr>tabList := Some (?tabs @ ?rest)\<rparr>"
  have b: "build_day_tabs data ?s0 = Inr ?s1"
    using build_day_tabs_eq[OF dist, of ?s0 ?w "[]" data] dist by simp
  from a(1) obtain tabs0 where "tabList s = Some tabs0" by auto
  then have e: "buildTabs data s = Inr ?s2"
    using a(2) b by (simp add: buildTabs_def append_tab_def)
  have "tab_shows (items s) (?tabs @ ?rest) d" if "d \<in> set data" for d
    using find_built_tab[OF dist that, of "items s" ?rest] count_completed_count[of "items s" d]
    by (simp add: tab_shows_def built_tab_def)
  then have "list_all (tab_shows (items ?s2) (?tabs @ ?rest)) data"
    by (simp add: list_all_iff)
  moreover have "panels_synced data (items ?s2) (tabPanels ?w)"
    by (simp add: panels_synced_def)
  ultimately have "page_inv data ?s2"
    by (intro page_invI[of _ "?tabs @ ?rest" ?w]) simp_all
  with e show ?thesis by simp
qed

lemma openTab_needs_anchors:
  assumes "openTab i s = Inr s'"
  shows "tabList s \<noteq> None \<and> win s \<noteq> None"
  using assms
  by (auto simp: openTab_def ensure_panel_def bind_def split: option.splits)

lemma updateDiary_detached:
  "\<not> diary_attached s \<Longrightarrow> updateDiary s = s"
  by (simp add: updateDiary_def)

lemma DOMContentLoaded_inv:
  assumes dist: "distinct (map day_id data)" and w0: "win s0 = None"
    and l: "DOMContentLoaded data s0 = Inr s"
  shows "page_inv data s"
proof -
  let ?s1 = "s0\<lparr>diary_attached := False\<rparr>"
  from l obtain s2 where b: "buildTabs data ?s1 = Inr s2" and r: "restoreLastDay data s2 = Inr s"
    by (auto simp: DOMContentLoaded_def updateDiary_detached bind_Inr_iff)
  from r obtain i where o: "openTab i s2 = Inr s"
    by (auto simp: restoreLastDay_def Let_def)
  have "tabList ?s1 \<noteq> None \<and> panelsContainer ?s1"
  proof (rule ccontr)
    assume "\<not> (tabList ?s1 \<noteq> None \<and> panelsContainer ?s1)"
    with b have "s2 = ?s1" by (auto simp: buildTabs_def)
    with w0 have "win s2 = None" by simp
    with openTab_needs_anchors[OF o] show False by simp
  qed
  with buildTabs_inv[OF dist, of ?s1] b have "page_inv data s2" by auto
  from openTab_inv[OF dist this o] show ?thesis .
qed

lemma reachable_inv:
  assumes "distinct (map day_id data)" and "reachable data s"
  shows "page_inv data s"
  using assms(2)
proof (induction rule: reachable.induct)
  case (loaded s0 s)
  then show ?case by (rule DOMContentLoaded_inv[OF assms(1)])
next
  case (activated s i s')
  then show ?case using openTab_inv[OF assms(1)] by blast
next
  case (toggled s p i s')
  then show ?case using done_click_inv[OF assms(1)] by blast
next
  case (noted s p i input s')
  then show ?case using note_click_inv by blast
next
  case (key_pressed s k s')
  then show ?case using handleTabKeyNav_inv[OF assms(1)] by blast
qed

lemma panels_synced_holds:
  assumes "distinct (map day_id data)" and "d \<in> set data" and "one_item_each d"
    and "panels_synced data st ps"
  shows "panel_holds ps d"
proof (cases "map_of ps (toString (day_id d))")
  case None
  then show ?thesis by (simp add: panel_holds_def)
next
  case (Some pan)
  show ?thesis
  proof (cases "content pan")
    case (DiaryPanel m)
    with Some show ?thesis by (simp add: panel_holds_def)
  next
    case (DayPanel dd uis)
    with Some assms(4) obtain d0 where
      "find_day data (toString (day_id d)) = Some d0" "day_id d0 = dd"
      "length uis = panel_items d0"
      unfolding panels_synced_def by blast
    with find_day_distinct[OF assms(1,2)] assms(3) have "dd = day_id d"
      "length uis = length (schedule d)"
      by (simp_all add: one_item_each_def)
    with Some DayPanel show ?thesis by (simp add: panel_holds_def)
  qed
qed

lemma page_inv_progress: "page_inv data s \<Longrightarrow> progress_shown s"
  unfolding page_inv_def progress_shown_def by auto

lemma done_click_succeeds:
  assumes "page_inv data s"
  shows "\<exists>s'. done_click p i s = Inr s'"
proof -
  from assms obtain w :: globals where w: "win s = Some w"
    by (auto elim: page_invE)
  have "\<exists>s'. updateDayProgress d (s\<lparr>items := st, win := Some w'\<rparr>) = Inr s'" for d st w'
    by (rule updateDayProgress_succeeds[of _ w']) simp
  then show ?thesis
    using w by (auto simp: done_click_def Let_def split: option.splits panel_content.splits)
qed


section \<open>Example: loading the page\<close>

lemma demo_build:
  "buildTabs demo_itinerary (updateDiary (demo_page\<lparr>diary_attached := False\<rparr>)) = Inr demo_built"
  by code_simp

lemma demo_load: "DOMContentLoaded demo_itinerary demo_page = Inr demo_loaded"
  by code_simp

lemma empty_dia_build:
  "buildTabs demo_itinerary
     (updateDiary (demo_page\<lparr>searchParams := [(''dia'', [])], lastDay := Some ''2'',
                             diary_attached := False\<rparr>)) = Inr empty_dia_page"
  by code_simp


section \<open>Example: a list item inside an activity\<close>

text \<open>
  \<open>parseItinerary\<close> takes the \<open>li\<close> children of a card's list, \<open>initScheduleItemsForDay\<close>
  every \<open>li\<close> inside the panel's list. Where the description of an activity holds a list
  item of its own, the indices of the controls are no longer those of the activities:
  in the example the second activity is stored under index 2, which the count of
  \<open>updateDayProgress\<close> does not reach, and with both activities done the tab reads
  \<open>Dia 1 (1/2)\<close>.
\<close>


lemma nested_items_example:
  "panel_items (nested_itinerary ! 0) = 3 \<and> length (schedule (nested_itinerary ! 0)) = 2
   \<and> bind (bind (DOMContentLoaded nested_itinerary (demo_page\<lparr>items := []\<rparr>))
              (done_click ''1'' 0))
        (done_click ''1'' 2) = Inr nested_done"
  by code_simp


section \<open>Toggling completion twice\<close>



section \<open>Activation and the URL\<close>

text \<open>
  C5. On a page whose tab list and panels have been built, activating the tab of a day
  (\<open>openTab\<close> with the day's id, as the tab's click handler calls it) leaves the query
  parameter \<open>dia\<close> equal to that id, and activating the diary panel leaves the URL
  without a parameter \<open>dia\<close>.
\<close>

theorem activation_sets_url:
  assumes "tabList s \<noteq> None" and "win s \<noteq> None"
  shows "(\<exists>s'. openTab (toString dayId) s = Inr s'
              \<and> sp_get (searchParams s') ''dia'' = Some (toString dayId))
       \<and> (\<exists>s'. openTab ''diary'' s = Inr s' \<and> \<not> sp_has (searchParams s') ''dia'')"
proof
  obtain s' where o: "openTab (toString dayId) s = Inr s'"
    using openTab_succeeds assms by fastforce
  from openTab_keeps[OF o] have "sp_get (searchParams s') ''dia'' = Some (toString dayId)"
    by (simp add: toString_not_diary sp_get_sp_set)
  with o show "\<exists>s'. openTab (toString dayId) s = Inr s'
              \<and> sp_get (searchParams s') ''dia'' = Some (toString dayId)" by blast
next
  obtain s' where o: "openTab ''diary'' s = Inr s'"
    using openTab_succeeds assms by fastforce
  from openTab_keeps[OF o] have "\<not> sp_has (searchParams s') ''dia''"
    by (simp add: sp_has_sp_delete)
  with o show "\<exists>s'. openTab ''diary'' s = Inr s' \<and> \<not> sp_has (searchParams s') ''dia''"
    by blast
qed


theorem activation_sets_url_witness:
  "tabList demo_loaded \<noteq> None \<and> win demo_loaded \<noteq> None
   \<and> (\<exists>s'. openTab (toString 2) demo_loaded = Inr s'
            \<and> sp_get (searchParams s') ''dia'' = Some (toString 2))
   \<and> (\<exists>s'. openTab ''diary'' demo_loaded = Inr s' \<and> \<not> sp_has (searchParams s') ''dia'')"
  using activation_sets_url [of demo_loaded 2]
  by (simp add: demo_loaded_def)


section \<open>The last day visited\<close>

lemma last_day_of_Cons:
  "last_day_of (i # is) before = last_day_of is (if i = ''diary'' then before else Some i)"
  by (auto simp: last_day_of_def split: list.splits)

lemma activations_lastDay:
  assumes "tabList s \<noteq> None" and "win s \<noteq> None"
  shows "\<exists>s'. activations is s = Inr s' \<and> lastDay s' = last_day_of is (lastDay s)"
  using assms
proof (induction "is" arbitrary: s)
  case Nil
  then show ?case by (simp add: last_day_of_def)
next
  case (Cons i "is")
  then obtain s1 where o: "openTab i s = Inr s1"
    using openTab_succeeds by fastforce
  from openTab_keeps[OF o] have
    k: "tabList s1 \<noteq> None" "win s1 \<noteq> None"
       "lastDay s1 = (if i = ''diary'' then lastDay s else Some i)"
    by simp_all
  from Cons.IH[OF k(1,2)] obtain s' where
    "activations is s1 = Inr s'" "lastDay s' = last_day_of is (lastDay s1)" by blast
  with o k(3) show ?case
    by (simp add: last_day_of_Cons)
qed

lemma last_day_of_not_diary:
  "before \<noteq> Some ''diary'' \<Longrightarrow> last_day_of is before \<noteq> Some ''diary''"
proof (induction "is" arbitrary: before)
  case Nil
  then show ?case by (simp add: last_day_of_def)
next
  case (Cons i "is")
  then show ?case by (simp add: last_day_of_Cons)
qed


text \<open>
  C10. On a page whose tab list and panels have been built, activating the diary panel
  leaves the stored \<open>lastDay\<close> as it was; and after any sequence of activations the
  stored \<open>lastDay\<close> is the last activated id other than \<open>diary\<close> (the value stored before,
  when the sequence has none), so it is never \<open>diary\<close> unless that was stored before.
\<close>

theorem diary_keeps_lastDay:
  assumes "tabList s \<noteq> None" and "win s \<noteq> None"
  shows "(\<exists>s'. openTab ''diary'' s = Inr s' \<and> lastDay s' = lastDay s)
       \<and> (\<exists>s'. activations is s = Inr s'
              \<and> lastDay s' = (case filter (\<lambda>i. i \<noteq> ''diary'') is of
                                [] \<Rightarrow> lastDay s | ds \<Rightarrow> Some (last ds))
              \<and> (lastDay s = Some ''diary'' \<or> lastDay s' \<noteq> Some ''diary''))"
proof
  obtain s' where o: "openTab ''diary'' s = Inr s'"
    using openTab_succeeds assms by fastforce
  from openTab_keeps[OF o] have "lastDay s' = lastDay s" by simp
  with o show "\<exists>s'. openTab ''diary'' s = Inr s' \<and> lastDay s' = lastDay s" by blast
next
  from activations_lastDay[OF assms] obtain s' where
    a: "activations is s = Inr s'" "lastDay s' = last_day_of is (lastDay s)" by blast
  then show "\<exists>s'. activations is s = Inr s'
              \<and> lastDay s' = (case filter (\<lambda>i. i \<noteq> ''diary'') is of
                                [] \<Rightarrow> lastDay s | ds \<Rightarrow> Some (last ds))
              \<and> (lastDay s = Some ''diary'' \<or> lastDay s' \<noteq> Some ''diary'')"
    using last_day_of_not_diary[of "lastDay s" "is"]
    by (auto simp: last_day_of_def)
qed

theorem diary_keeps_lastDay_witness:
  "tabList demo_loaded \<noteq> None \<and> win demo_loaded \<noteq> None
   \<and> (\<exists>s'. openTab ''diary'' demo_loaded = Inr s' \<and> lastDay s' = lastDay demo_loaded)
   \<and> (\<exists>s'. activations [''2'', ''diary'', ''1'', ''diary''] demo_loaded = Inr s'
            \<and> lastDay s' = Some ''1'' \<and> lastDay s' \<noteq> Some ''diary'')"
  using diary_keeps_lastDay [of demo_loaded "[''2'', ''diary'', ''1'', ''diary'']"]
  by (simp add: demo_loaded_def)


section \<open>The panel activated when the page loads\<close>

text \<open>
  C6 as stated: the order of the specification fails when the URL carries the parameter \<open>dia\<close> with an
  empty value: the source then opens the first day, neither the (empty) parameter nor
  the stored last day.
\<close>

theorem initial_id_counterexample:
  "restoreLastDay demo_itinerary empty_dia_page
     \<noteq> openTab (claimed_initial_id empty_dia_page demo_itinerary) empty_dia_page
   \<and> restoreLastDay demo_itinerary empty_dia_page \<noteq> openTab ''2'' empty_dia_page
   \<and> restoreLastDay demo_itinerary empty_dia_page = openTab ''1'' empty_dia_page"
  by code_simp

text \<open>
  C6, amended. When the page loads, the id that is activated is the URL parameter \<open>dia\<close>
  if it is present and not empty; if the parameter is absent, the stored last day if it
  is present and not empty; in every other case, also when the parameter is present but
  empty, the first day of the itinerary if there is one, else the diary panel. In
  particular, with no stored last day and no URL parameter, the first day is activated.
\<close>

theorem initial_id_resolution:
  "restoreLastDay data s = openTab (initial_id s data) s
   \<and> (sp_get (searchParams s) ''dia'' = None \<and> lastDay s = None \<and> data \<noteq> []
        \<longrightarrow> restoreLastDay data s = openTab (toString (day_id (hd data))) s)"
  by (auto simp: restoreLastDay_def initial_id_def first_or_diary_def sp_has_def sp_get_def
      split: option.splits)

theorem initial_id_resolution_witness:
  "sp_get (searchParams demo_built) ''dia'' = None \<and> lastDay demo_built = None
   \<and> demo_itinerary \<noteq> []
   \<and> restoreLastDay demo_itinerary demo_built = openTab (toString 1) demo_built
   \<and> restoreLastDay demo_itinerary demo_built = Inr demo_loaded"
proof -
  have h: "sp_get (searchParams demo_built) ''dia'' = None \<and> lastDay demo_built = None
           \<and> demo_itinerary \<noteq> []"
    by (simp add: demo_built_def demo_itinerary_def sp_get_def)
  have d: "day_id (hd demo_itinerary) = 1"
    by (simp add: demo_itinerary_def)
  have l: "openTab (toString 1) demo_built = Inr demo_loaded"
    by code_simp
  from initial_id_resolution [of demo_itinerary demo_built] h
  have "restoreLastDay demo_itinerary demo_built
          = openTab (toString (day_id (hd demo_itinerary))) demo_built"
    by blast
  then have "restoreLastDay demo_itinerary demo_built = openTab (toString 1) demo_built"
    by (simp only: d)
  with h l show ?thesis
    by simp
qed


section \<open>The diary after an aggregation\<close>






section \<open>Setting and clearing a note\<close>





section \<open>Absent and malformed stored values\<close>

text \<open>
  C7. When nothing is stored under an item's key, or what is stored is not JSON, the
  item is read as \<open>{}\<close>: not completed, no note. Its controls start in the default
  state, the progress count does not count it and the diary has no entry for it: count
  and diary are those of the store without the key. The syntax error of \<open>JSON.parse\<close>
  is caught in each of the three places; none of them fails with it.
\<close>

theorem unreadable_state_is_default:
  assumes "getItem st key = None \<or> getItem st key = Some Malformed"
  shows "load_saved st key = PlainObject []
       \<and> init_item st key =
           \<lparr>li_completed = False, saved = PlainObject [], note_display = NoteHidden\<rparr>
       \<and> \<not> is_completed st key
       \<and> count_completed st d n 0 0 = count_completed (AList.delete key st) d n 0 0
       \<and> diary_entries st = diary_entries (AList.delete key st)
       \<and> updateDayProgress d s \<noteq> Inl SyntaxError"
proof -
  from assms have l: "load_saved st key = PlainObject []"
    by (auto simp: load_saved_def)
  from assms have c: "\<not> is_completed st key"
    by (auto simp: is_completed_def)
  have "updateDayProgress d s \<noteq> Inl SyntaxError"
    by (simp add: updateDayProgress_def Let_def split: option.splits)
  then show ?thesis
    using l c diary_entries_delete[OF scan_key_unreadable[OF assms]]
      count_completed_cong[of "AList.delete key st" st d n 0 0, OF is_completed_delete[OF c]]
    by (simp add: init_item_def truthy_property_def)
qed

theorem unreadable_state_is_default_witness:
  "getItem demo_items ''day-1-item-1'' = Some Malformed
   \<and> init_item demo_items ''day-1-item-1'' =
       \<lparr>li_completed = False, saved = PlainObject [], note_display = NoteHidden\<rparr>
   \<and> \<not> is_completed demo_items ''day-1-item-1''
   \<and> count_completed demo_items 1 2 0 0
       = count_completed (AList.delete ''day-1-item-1'' demo_items) 1 2 0 0
   \<and> diary_entries demo_items = diary_entries (AList.delete ''day-1-item-1'' demo_items)"
proof -
  have h: "getItem demo_items ''day-1-item-1'' = Some Malformed"
    by (simp add: demo_items_def getItem_def)
  then have "getItem demo_items ''day-1-item-1'' = None
             \<or> getItem demo_items ''day-1-item-1'' = Some Malformed" ..
  from unreadable_state_is_default [OF this, of 1 2] h show ?thesis
    by simp
qed


section \<open>Keyboard navigation on the tab list\<close>

text \<open>
  C9. On a built page with at least one tab: from the selected tab at position \<open>cur\<close>,
  the right arrow focuses and activates the tab at \<open>(cur + 1) mod n\<close> (the first one
  after the last) and the left arrow the tab at \<open>(cur + n - 1) mod n\<close> (the last one
  before the first); Home focuses and activates the first tab and End the last; Enter
  and Space activate the focused tab and leave the focus where it is.
\<close>

theorem keyboard_navigation:
  assumes "tabList s = Some tabs" and "win s \<noteq> None" and "tabs \<noteq> []"
  shows "(findIndex aria_selected tabs = int cur \<and> (k = ''ArrowRight'' \<or> k = ''Right'')
            \<longrightarrow> moved_to ((cur + 1) mod length tabs) tabs s (handleTabKeyNav k s))
       \<and> (findIndex aria_selected tabs = int cur \<and> (k = ''ArrowLeft'' \<or> k = ''Left'')
            \<longrightarrow> moved_to ((cur + length tabs - 1) mod length tabs) tabs s
                  (handleTabKeyNav k s))
       \<and> (k = ''Home'' \<longrightarrow> moved_to 0 tabs s (handleTabKeyNav k s))
       \<and> (k = ''End'' \<longrightarrow> moved_to (length tabs - 1) tabs s (handleTabKeyNav k s))
       \<and> ((k = ''Enter'' \<or> k = '' '' \<or> k = ''Spacebar'') \<and> focus s = Some j \<and> j < length tabs
            \<longrightarrow> handleTabKeyNav k s = openTab (getIdFromTab (tabs ! j)) s
                \<and> (\<exists>s'. handleTabKeyNav k s = Inr s' \<and> focus s' = Some j))"
proof -
  let ?n = "length tabs"
  from assms(3) have n: "0 < ?n" by simp
  have mv: "moved_to j tabs s (focus_and_open (int j) tabs s)" if "j < ?n" for j
    using focus_and_open_moves[OF assms(1,2) that] .
  have right: "moved_to ((cur + 1) mod ?n) tabs s (handleTabKeyNav k s)"
    if c: "findIndex aria_selected tabs = int cur" and k: "k = ''ArrowRight'' \<or> k = ''Right''"
  proof -
    have "js_rem (int cur + 1) (int ?n) = int ((cur + 1) mod ?n)"
      using n by (simp add: js_rem_nonneg zmod_int add.commute)
    then have "handleTabKeyNav k s = focus_and_open (int ((cur + 1) mod ?n)) tabs s"
      using assms c k by (auto simp: handleTabKeyNav_def Let_def)
    then show ?thesis using mv[of "(cur + 1) mod ?n"] n by simp
  qed
  have left: "moved_to ((cur + ?n - 1) mod ?n) tabs s (handleTabKeyNav k s)"
    if c: "findIndex aria_selected tabs = int cur" and k: "k = ''ArrowLeft'' \<or> k = ''Left''"
  proof -
    have "int cur - 1 + int ?n = int (cur + ?n - 1)" using n by linarith
    then have "js_rem (int cur - 1 + int ?n) (int ?n) = int ((cur + ?n - 1) mod ?n)"
      using n by (simp only: js_rem_nonneg zmod_int of_nat_0_le_iff of_nat_0_less_iff)
    then have "handleTabKeyNav k s = focus_and_open (int ((cur + ?n - 1) mod ?n)) tabs s"
      using assms c k by (auto simp: handleTabKeyNav_def Let_def)
    then show ?thesis using mv[of "(cur + ?n - 1) mod ?n"] n by simp
  qed
  have home: "moved_to 0 tabs s (handleTabKeyNav k s)" if "k = ''Home''"
    using that assms mv[of 0] n by (simp add: handleTabKeyNav_def Let_def)
  have endk: "moved_to (?n - 1) tabs s (handleTabKeyNav k s)" if "k = ''End''"
  proof -
    have "int ?n - 1 = int (?n - 1)" using n by linarith
    then show ?thesis
      using that assms mv[of "?n - 1"] n by (simp add: handleTabKeyNav_def Let_def)
  qed
  have enter: "handleTabKeyNav k s = openTab (getIdFromTab (tabs ! j)) s
                \<and> (\<exists>s'. handleTabKeyNav k s = Inr s' \<and> focus s' = Some j)"
    if k: "k = ''Enter'' \<or> k = '' '' \<or> k = ''Spacebar''" and f: "focus s = Some j" "j < ?n"
  proof -
    have e: "handleTabKeyNav k s = openTab (getIdFromTab (tabs ! j)) s"
      using assms k f by (auto simp: handleTabKeyNav_def Let_def)
    obtain s' where o: "openTab (getIdFromTab (tabs ! j)) s = Inr s'"
      using openTab_succeeds[of s tabs] assms(1,2) by fastforce
    from openTab_keeps[OF o] f have "focus s' = Some j" by simp
    with e o show ?thesis by simp
  qed
  show ?thesis
  proof (intro conjI)
    show "findIndex aria_selected tabs = int cur \<and> (k = ''ArrowRight'' \<or> k = ''Right'')
            \<longrightarrow> moved_to ((cur + 1) mod length tabs) tabs s (handleTabKeyNav k s)"
      using right by simp
    show "findIndex aria_selected tabs = int cur \<and> (k = ''ArrowLeft'' \<or> k = ''Left'')
            \<longrightarrow> moved_to ((cur + length tabs - 1) mod length tabs) tabs s
                  (handleTabKeyNav k s)"
      using left by simp
    show "k = ''Home'' \<longrightarrow> moved_to 0 tabs s (handleTabKeyNav k s)"
      using home by simp
    show "k = ''End'' \<longrightarrow> moved_to (length tabs - 1) tabs s (handleTabKeyNav k s)"
      using endk by simp
    show "(k = ''Enter'' \<or> k = '' '' \<or> k = ''Spacebar'') \<and> focus s = Some j \<and> j < length tabs
            \<longrightarrow> handleTabKeyNav k s = openTab (getIdFromTab (tabs ! j)) s
                \<and> (\<exists>s'. handleTabKeyNav k s = Inr s' \<and> focus s' = Some j)"
    proof
      assume "(k = ''Enter'' \<or> k = '' '' \<or> k = ''Spacebar'') \<and> focus s = Some j
              \<and> j < length tabs"
      then have "k = ''Enter'' \<or> k = '' '' \<or> k = ''Spacebar''" "focus s = Some j"
        "j < length tabs"
        by simp_all
      then show "handleTabKeyNav k s = openTab (getIdFromTab (tabs ! j)) s
                \<and> (\<exists>s'. handleTabKeyNav k s = Inr s' \<and> focus s' = Some j)"
        by (rule enter)
    qed
  qed
qed


theorem keyboard_navigation_witness:
  "tabList demo_loaded = Some demo_tabs \<and> win demo_loaded \<noteq> None \<and> demo_tabs \<noteq> []
   \<and> findIndex aria_selected demo_tabs = int 0
   \<and> moved_to 1 demo_tabs demo_loaded (handleTabKeyNav ''ArrowRight'' demo_loaded)
   \<and> moved_to 2 demo_tabs demo_loaded (handleTabKeyNav ''ArrowLeft'' demo_loaded)
   \<and> moved_to 0 demo_tabs demo_loaded (handleTabKeyNav ''Home'' demo_loaded)
   \<and> moved_to 2 demo_tabs demo_loaded (handleTabKeyNav ''End'' demo_loaded)
   \<and> tabList demo_diary = Some (map (select_tab ''diary'') demo_tabs)
   \<and> findIndex aria_selected (map (select_tab ''diary'') demo_tabs) = int 2
   \<and> moved_to 0 (map (select_tab ''diary'') demo_tabs) demo_diary
        (handleTabKeyNav ''ArrowRight'' demo_diary)
   \<and> focus (demo_loaded\<lparr>focus := Some 1\<rparr>) = Some 1
   \<and> handleTabKeyNav ''Enter'' (demo_loaded\<lparr>focus := Some 1\<rparr>)
       = openTab ''2'' (demo_loaded\<lparr>focus := Some 1\<rparr>)
   \<and> (\<exists>s'. handleTabKeyNav ''Enter'' (demo_loaded\<lparr>focus := Some 1\<rparr>) = Inr s'
           \<and> focus s' = Some 1)"
proof -
  have h1: "tabList demo_loaded = Some demo_tabs" by (simp add: demo_loaded_def)
  have h2: "win demo_loaded \<noteq> None" by (simp add: demo_loaded_def)
  have h3: "demo_tabs \<noteq> []" by (simp add: demo_tabs_def)
  have c: "findIndex aria_selected demo_tabs = int 0" by (simp add: demo_tabs_def)
  have n: "length demo_tabs = 3" by (simp add: demo_tabs_def)
  have r: "moved_to 1 demo_tabs demo_loaded (handleTabKeyNav ''ArrowRight'' demo_loaded)"
    using keyboard_navigation [OF h1 h2 h3, of 0 "''ArrowRight''"] c n by simp
  have l: "moved_to 2 demo_tabs demo_loaded (handleTabKeyNav ''ArrowLeft'' demo_loaded)"
    using keyboard_navigation [OF h1 h2 h3, of 0 "''ArrowLeft''"] c n by simp
  have h: "moved_to 0 demo_tabs demo_loaded (handleTabKeyNav ''Home'' demo_loaded)"
    using keyboard_navigation [OF h1 h2 h3, of 0 "''Home''"] by simp
  have e: "moved_to 2 demo_tabs demo_loaded (handleTabKeyNav ''End'' demo_loaded)"
    using keyboard_navigation [OF h1 h2 h3, of 0 "''End''"] n by simp
  let ?tabs = "map (select_tab ''diary'') demo_tabs"
  have d1: "tabList demo_diary = Some ?tabs" by code_simp
  have d2: "win demo_diary \<noteq> None" by code_simp
  have d3: "?tabs \<noteq> []" by (simp add: demo_tabs_def)
  have dc: "findIndex aria_selected ?tabs = int 2" by code_simp
  have dn: "length ?tabs = 3" by (simp add: demo_tabs_def)
  have w: "moved_to 0 ?tabs demo_diary (handleTabKeyNav ''ArrowRight'' demo_diary)"
    using keyboard_navigation [OF d1 d2 d3, of 2 "''ArrowRight''"] dc dn by simp
  let ?f = "demo_loaded\<lparr>focus := Some 1\<rparr>"
  have f1: "tabList ?f = Some demo_tabs" by (simp add: demo_loaded_def)
  have f2: "win ?f \<noteq> None" by (simp add: demo_loaded_def)
  have f3: "focus ?f = Some 1" by simp
  have g: "getIdFromTab (demo_tabs ! 1) = ''2''" by code_simp
  have p: "(''Enter'' = ''Enter'' \<or> ''Enter'' = '' '' \<or> ''Enter'' = ''Spacebar'')
           \<and> focus ?f = Some 1 \<and> 1 < length demo_tabs"
    by (simp add: n)
  note E = keyboard_navigation [OF f1 f2 h3, of 0 "''Enter''" 1,
      THEN conjunct2, THEN conjunct2, THEN conjunct2, THEN conjunct2, THEN mp, OF p]
  have k: "handleTabKeyNav ''Enter'' ?f = openTab ''2'' ?f
           \<and> (\<exists>s'. handleTabKeyNav ''Enter'' ?f = Inr s' \<and> focus s' = Some 1)"
    using E unfolding g .
  from k have k1: "handleTabKeyNav ''Enter'' ?f = openTab ''2'' ?f"
    by (rule conjunct1)
  from k have k2: "\<exists>s'. handleTabKeyNav ''Enter'' ?f = Inr s' \<and> focus s' = Some 1"
    by (rule conjunct2)
  from h1 h2 h3 c r l h e d1 dc w f3 k1 k2 show ?thesis by (intro conjI)
qed


section \<open>Tabs and panels after an activation\<close>

text \<open>
  C8 as stated fails for an id that matches no tab: after \<open>openTab('99')\<close> on the example
  page no tab is marked selected, and no panel is shown.
\<close>

theorem activation_counterexample:
  "openTab ''99'' demo_loaded = Inr demo_unknown
   \<and> selected_ids demo_unknown = [] \<and> shown_ids demo_unknown = []
   \<and> map fst (panels_of demo_unknown) = [''1'']"
  by code_simp

text \<open>
  C8, amended. On a built page whose tabs have distinct ids and whose panels have
  distinct keys, \<open>openTab\<close> returns for every id. Afterwards the tabs marked selected
  are exactly the one tab of that id if there is one, and none otherwise; the panels
  shown are exactly the panel of that id if the id is \<open>diary\<close>, the id of a day of the
  itinerary, or the key of a panel the page already holds, and none otherwise; every
  panel of another id is hidden.
\<close>

theorem activation_selects:
  assumes "tabList s = Some tabs" and "win s = Some w" and "panelsContainer s"
    and "distinct (map getIdFromTab tabs)" and "distinct (map fst (tabPanels w))"
  shows "\<exists>s'. openTab i s = Inr s'
           \<and> selected_ids s' = (if i \<in> set (map getIdFromTab tabs) then [i] else [])
           \<and> shown_ids s' =
               (if map_of (tabPanels w) i \<noteq> None \<or> i = ''diary''
                   \<or> find_day (itineraryData w) i \<noteq> None
                then [i] else [])
           \<and> (\<forall>kp \<in> set (panels_of s').
                 fst kp \<noteq> i \<longrightarrow> panel_hidden (snd kp) \<and> \<not> panel_active (snd kp))"
proof -
  obtain s' where o: "openTab i s = Inr s'"
    using openTab_succeeds[OF assms(1,2)] by blast
  have sel: "selected_ids s' = (if i \<in> set (map getIdFromTab tabs) then [i] else [])"
    using openTab_selected[OF o assms(1)] filter_eq_distinct[OF assms(4), of i]
    by (auto simp: filter_empty_conv)
  from openTab_panels[OF o assms(2)] obtain w2 :: globals where
    p: "panels_of s' = map (show_panel i) (tabPanels w2)" and
    u: "tabPanels w2 = tabPanels w \<or> (\<exists>p. tabPanels w2 = AList.update i p (tabPanels w))" and
    c: "map_of (tabPanels w2) i \<noteq> None \<longleftrightarrow> panel_expected i s w"
    by metis
  from u assms(5) have d: "distinct (map fst (tabPanels w2))"
    by (auto simp: distinct_update)
  have k: "i \<in> set (map fst (tabPanels w2)) \<longleftrightarrow> map_of (tabPanels w2) i \<noteq> None"
    by (simp add: map_of_eq_None_iff)
  have "shown_ids s' = filter (\<lambda>k. k = i) (map fst (tabPanels w2))"
    by (simp add: shown_ids_def p shown_after_show)
  also have "\<dots> = (if map_of (tabPanels w2) i \<noteq> None then [i] else [])"
    using filter_eq_distinct[OF d, of i] k by (auto simp: filter_empty_conv)
  also have "\<dots> = (if map_of (tabPanels w) i \<noteq> None \<or> i = ''diary''
                   \<or> find_day (itineraryData w) i \<noteq> None
                then [i] else [])"
    using c assms(3) by (simp add: panel_expected_def)
  finally have sh: "shown_ids s' = (if map_of (tabPanels w) i \<noteq> None \<or> i = ''diary''
                   \<or> find_day (itineraryData w) i \<noteq> None
                then [i] else [])" .
  have h: "\<forall>kp \<in> set (panels_of s').
                 fst kp \<noteq> i \<longrightarrow> panel_hidden (snd kp) \<and> \<not> panel_active (snd kp)"
    unfolding p using others_hidden_after_show by blast
  show ?thesis
  proof (intro exI conjI)
    show "openTab i s = Inr s'" by (rule o)
    show "selected_ids s' = (if i \<in> set (map getIdFromTab tabs) then [i] else [])"
      by (rule sel)
    show "shown_ids s' = (if map_of (tabPanels w) i \<noteq> None \<or> i = ''diary''
                   \<or> find_day (itineraryData w) i \<noteq> None
                then [i] else [])"
      by (rule sh)
    show "\<forall>kp \<in> set (panels_of s').
                 fst kp \<noteq> i \<longrightarrow> panel_hidden (snd kp) \<and> \<not> panel_active (snd kp)"
      by (rule h)
  qed
qed

theorem activation_selects_witness:
  "tabList demo_loaded = Some demo_tabs \<and> win demo_loaded = Some demo_globals
   \<and> panelsContainer demo_loaded \<and> distinct (map getIdFromTab demo_tabs)
   \<and> distinct (map fst (tabPanels demo_globals))
   \<and> (\<exists>s'. openTab ''2'' demo_loaded = Inr s' \<and> selected_ids s' = [''2'']
            \<and> shown_ids s' = [''2''])"
proof -
  have h1: "tabList demo_loaded = Some demo_tabs" by (simp add: demo_loaded_def)
  have h2: "win demo_loaded = Some demo_globals" by (simp add: demo_loaded_def)
  have h3: "panelsContainer demo_loaded" by (simp add: demo_loaded_def)
  have h4: "distinct (map getIdFromTab demo_tabs)" by code_simp
  have h5: "distinct (map fst (tabPanels demo_globals))" by code_simp
  have m: "''2'' \<in> set (map getIdFromTab demo_tabs)" by code_simp
  have f: "find_day (itineraryData demo_globals) ''2'' \<noteq> None" by code_simp
  from activation_selects [OF h1 h2 h3 h4 h5, of "''2''"] m f
  have "\<exists>s'. openTab ''2'' demo_loaded = Inr s' \<and> selected_ids s' = [''2'']
            \<and> shown_ids s' = [''2'']"
    by auto
  with h1 h2 h3 h4 h5 show ?thesis by simp
qed


section \<open>Progress shown on the tabs\<close>




end
